theory Spec2Isabelle
  imports Complex_Main "HOL-Library.Sublist"
begin

section \<open>Python values used by the proxy\<close>

subsection \<open>Strings\<close>

text \<open>
  Strings are lists of 8-bit characters: header names and values reach the handlers decoded
  as Latin-1, one character per byte. \<open>str.lower\<close> on such a character adds 32 to the
  upper-case ASCII letters and to the upper-case Latin-1 letters (0xC0..0xDE except the
  multiplication sign 0xD7) and leaves every other character alone.
\<close>

definition py_lower_char :: "char \<Rightarrow> char" where
  "py_lower_char c =
     (let n = (of_char c :: nat)
      in if (65 \<le> n \<and> n \<le> 90) \<or> (192 \<le> n \<and> n \<le> 222 \<and> n \<noteq> 215)
         then char_of (n + 32) else c)"

definition py_lower :: "string \<Rightarrow> string" where
  "py_lower s = map py_lower_char s"

text \<open>\<open>sub in s\<close> for two strings: \<open>sub\<close> occurs as a contiguous run of \<open>s\<close>.\<close>

fun py_in_str :: "string \<Rightarrow> string \<Rightarrow> bool" where
  "py_in_str sub [] = (sub = [])"
| "py_in_str sub (c # cs) = (prefix sub (c # cs) \<or> py_in_str sub cs)"

text \<open>\<open>s.startswith(p)\<close>.\<close>

definition startswith :: "string \<Rightarrow> string \<Rightarrow> bool" where
  "startswith s p = prefix p s"

text \<open>
  \<open>s.partition(sep)\<close> for a separator of one character: the part before the first
  separator, the separator, the part after it; when the separator does not occur, the whole
  string and two empty strings.
\<close>

definition py_partition :: "char \<Rightarrow> string \<Rightarrow> string \<times> string \<times> string" where
  "py_partition sep s =
     (case dropWhile (\<lambda>c. c \<noteq> sep) s of
        [] \<Rightarrow> (s, [], [])
      | _ # t \<Rightarrow> (takeWhile (\<lambda>c. c \<noteq> sep) s, [sep], t))"

text \<open>\<open>sep.join(xs)\<close>.\<close>

fun py_join :: "string \<Rightarrow> string list \<Rightarrow> string" where
  "py_join sep [] = []"
| "py_join sep [x] = x"
| "py_join sep (x # y # ys) = x @ sep @ py_join sep (y # ys)"

text \<open>
  \<open>s.replace(old, new)\<close>: every non-overlapping occurrence of \<open>old\<close>, from the left. With
  an empty \<open>old\<close> Python puts \<open>new\<close> before every character and at the end.
\<close>

function replace_nonempty :: "string \<Rightarrow> string \<Rightarrow> string \<Rightarrow> string" where
  "replace_nonempty old new [] = []"
| "replace_nonempty old new (c # cs) =
     (if old \<noteq> [] \<and> prefix old (c # cs)
      then new @ replace_nonempty old new (drop (length old) (c # cs))
      else c # replace_nonempty old new cs)"
  by pat_completeness auto
termination
  by (relation "measure (\<lambda>(old, new, s). length s)") (auto simp: Suc_le_eq)

definition py_replace :: "string \<Rightarrow> string \<Rightarrow> string \<Rightarrow> string" where
  "py_replace s old new =
     (if old = [] then new @ concat (map (\<lambda>c. c # new) s) else replace_nonempty old new s)"

text \<open>The decimal text of a natural number, as an f-string prints a status code.\<close>

function show_nat :: "nat \<Rightarrow> string" where
  "show_nat n =
     (if n < 10 then [char_of (48 + n)]
      else show_nat (n div 10) @ [char_of (48 + n mod 10)])"
  by pat_completeness auto
termination
  by (relation "measure id") auto

declare show_nat.simps [simp del]

definition nl :: string where
  "nl = [CHR 0x0A]"

subsection \<open>Parsed JSON\<close>

text \<open>
  A Python float is kept by its exact value (every finite double is a rational number), so
  that equality with an int, truth value and \<open>int()\<close> are what Python computes.
\<close>

datatype pyfloat = FFinite rat | FInf bool | FNaN

datatype json =
    JNull
  | JBool bool
  | JInt int
  | JFloat pyfloat
  | JStr string
  | JArr "json list"
  | JObj "(string \<times> json) list"

text \<open>Python exceptions: the classes the handlers tell apart, each with its \<open>str()\<close>.\<close>

record api_error =
  err_code :: json
  err_body :: json
  err_message :: string

datatype exn =
    HTTPException nat string
  | ConnectError string
  | TimeoutException string
  | APIError api_error
  | ValueError string
  | TypeError string
  | KeyError string
  | AttributeError string
  | OverflowError string
  | OtherException string

text \<open>
  \<open>str(e)\<close>. An \<open>HTTPException\<close> prints as \<open>status: detail\<close>; an \<open>APIError\<close> of the
  OpenAI client prints its message.
\<close>

fun str_exn :: "exn \<Rightarrow> string" where
  "str_exn (HTTPException c d) = show_nat c @ '': '' @ d"
| "str_exn (ConnectError m) = m"
| "str_exn (TimeoutException m) = m"
| "str_exn (APIError e) = err_message e"
| "str_exn (ValueError m) = m"
| "str_exn (TypeError m) = m"
| "str_exn (KeyError m) = m"
| "str_exn (AttributeError m) = m"
| "str_exn (OverflowError m) = m"
| "str_exn (OtherException m) = m"

definition then_exn :: "exn + 'a \<Rightarrow> ('a \<Rightarrow> exn + 'b) \<Rightarrow> exn + 'b" where
  "then_exn r f = (case r of Inl e \<Rightarrow> Inl e | Inr x \<Rightarrow> f x)"

text \<open>Truth value of a parsed JSON value.\<close>

fun py_truthy :: "json \<Rightarrow> bool" where
  "py_truthy JNull = False"
| "py_truthy (JBool b) = b"
| "py_truthy (JInt n) = (n \<noteq> 0)"
| "py_truthy (JFloat (FFinite q)) = (q \<noteq> 0)"
| "py_truthy (JFloat (FInf _)) = True"
| "py_truthy (JFloat FNaN) = True"
| "py_truthy (JStr s) = (s \<noteq> [])"
| "py_truthy (JArr xs) = (xs \<noteq> [])"
| "py_truthy (JObj kvs) = (kvs \<noteq> [])"

text \<open>\<open>v == n\<close> for an int \<open>n\<close>: bool, int and float compare by value.\<close>

fun py_eq_int :: "json \<Rightarrow> int \<Rightarrow> bool" where
  "py_eq_int (JInt m) n = (m = n)"
| "py_eq_int (JBool b) n = ((if b then 1 else 0) = n)"
| "py_eq_int (JFloat (FFinite q)) n = (q = of_int n)"
| "py_eq_int _ n = False"

text \<open>\<open>v == s\<close> for a string \<open>s\<close>.\<close>

fun py_eq_str :: "json \<Rightarrow> string \<Rightarrow> bool" where
  "py_eq_str (JStr t) s = (t = s)"
| "py_eq_str _ s = False"

text \<open>\<open>isinstance(v, dict)\<close>.\<close>

fun is_dict :: "json \<Rightarrow> bool" where
  "is_dict (JObj _) = True"
| "is_dict _ = False"

text \<open>\<open>v.get(key, default)\<close>: only a dict has the method.\<close>

fun py_get :: "json \<Rightarrow> string \<Rightarrow> json \<Rightarrow> exn + json" where
  "py_get (JObj kvs) k d = Inr (case map_of kvs k of Some v \<Rightarrow> v | None \<Rightarrow> d)"
| "py_get _ k d = Inl (AttributeError ''object has no attribute get'')"

text \<open>\<open>v[key]\<close> for a string key.\<close>

fun py_getitem :: "json \<Rightarrow> string \<Rightarrow> exn + json" where
  "py_getitem (JObj kvs) k = (case map_of kvs k of Some v \<Rightarrow> Inr v | None \<Rightarrow> Inl (KeyError k))"
| "py_getitem (JArr _) k = Inl (TypeError ''list indices must be integers or slices, not str'')"
| "py_getitem (JStr _) k = Inl (TypeError ''string indices must be integers'')"
| "py_getitem _ k = Inl (TypeError ''object is not subscriptable'')"

text \<open>
  \<open>key in v\<close> for a string key: a key of the dict, an element of the list, a substring of
  the string; the other values are not iterable.
\<close>

fun py_contains :: "string \<Rightarrow> json \<Rightarrow> exn + bool" where
  "py_contains k (JObj kvs) = Inr (map_of kvs k \<noteq> None)"
| "py_contains k (JArr xs) = Inr (list_ex (\<lambda>x. py_eq_str x k) xs)"
| "py_contains k (JStr s) = Inr (py_in_str k s)"
| "py_contains k _ = Inl (TypeError ''argument is not iterable'')"

text \<open>
  \<open>int(v)\<close>. The text-to-int conversion of a string is the library's (\<open>None\<close> when it
  raises ValueError), taken as the parameter \<open>of_str\<close>; a float is truncated towards zero.
\<close>

fun py_int :: "(string \<Rightarrow> int option) \<Rightarrow> json \<Rightarrow> exn + int" where
  "py_int of_str (JInt n) = Inr n"
| "py_int of_str (JBool b) = Inr (if b then 1 else 0)"
| "py_int of_str (JFloat (FFinite q)) = Inr (if 0 \<le> q then \<lfloor>q\<rfloor> else \<lceil>q\<rceil>)"
| "py_int of_str (JFloat (FInf _)) = Inl (OverflowError ''cannot convert float infinity to integer'')"
| "py_int of_str (JFloat FNaN) = Inl (ValueError ''cannot convert float NaN to integer'')"
| "py_int of_str (JStr s) =
     (case of_str s of Some n \<Rightarrow> Inr n | None \<Rightarrow> Inl (ValueError ''invalid literal for int()''))"
| "py_int of_str _ = Inl (TypeError ''int() argument must be a string or a real number'')"

subsection \<open>Dicts of headers\<close>

text \<open>
  A Python dict of strings is an association list in insertion order with distinct keys:
  storing under a key that is present replaces the value where it stands, storing under a
  new key appends.
\<close>

type_synonym headers = "(string \<times> string) list"

fun dict_set :: "string \<Rightarrow> string \<Rightarrow> headers \<Rightarrow> headers" where
  "dict_set k v [] = [(k, v)]"
| "dict_set k v ((k', v') # d) = (if k' = k then (k, v) # d else (k', v') # dict_set k v d)"

text \<open>\<open>{k: v for k, v in items}\<close>: the items are stored one after the other.\<close>

definition dict_of_items :: "headers \<Rightarrow> headers" where
  "dict_of_items items = foldl (\<lambda>d (k, v). dict_set k v d) [] items"

definition dict_has :: "headers \<Rightarrow> string \<Rightarrow> bool" where
  "dict_has d k = (map_of d k \<noteq> None)"

text \<open>
  \<open>Headers.get(name, default)\<close> of the HTTP client: the name is matched without regard to
  case and the values of a repeated header are joined with a comma and a space.
\<close>

definition httpx_get :: "headers \<Rightarrow> string \<Rightarrow> string \<Rightarrow> string" where
  "httpx_get hs name d =
     (case map snd (filter (\<lambda>(k, v). py_lower k = py_lower name) hs) of
        [] \<Rightarrow> d
      | vs \<Rightarrow> py_join '', '' vs)"

text \<open>
  \<open>dict(response.headers)\<close>: one entry per lower-cased name, values joined, each name at
  the place of its first occurrence.
\<close>

definition httpx_headers_dict :: "headers \<Rightarrow> headers" where
  "httpx_headers_dict hs =
     map (\<lambda>k. (k, httpx_get hs k [])) (rev (remdups (rev (map (py_lower \<circ> fst) hs))))"

section \<open>Configuration, constants and library functions\<close>

text \<open>
  The constants of \<open>constants.py\<close> and the configuration are parameters of the model, and so
  are the library functions whose results the handlers only pass on or test: the JSON
  parser and printer, the text-to-int conversion behind \<open>int()\<close>, and the line splitter of
  the HTTP client. The rate-limit code is an int, the rate-limit message a string.
\<close>

record config =
  access_key :: string
  OPENROUTER_BASE_URL :: string
  PUBLIC_ENDPOINTS :: "string list"
  BINARY_ENDPOINTS :: "string list"
  RATE_LIMIT_ERROR_CODE :: int
  RATE_LIMIT_ERROR_MESSAGE :: string
  json_loads :: "string \<Rightarrow> exn + json"
  json_dumps :: "json \<Rightarrow> string"
  int_of_str :: "string \<Rightarrow> int option"
  split_lines :: "string \<Rightarrow> string list"

section \<open>utils.py\<close>

subsection \<open>verify_access_key\<close>

definition verify_access_key :: "string option \<Rightarrow> string \<Rightarrow> exn + bool" where
  "verify_access_key authorization key =
     (case authorization of
        None \<Rightarrow> Inl (HTTPException 401 ''Authorization header missing'')
      | Some a \<Rightarrow>
          if a = [] then Inl (HTTPException 401 ''Authorization header missing'')
          else (case py_partition (CHR '' '') a of
                  (scheme, _, token) \<Rightarrow>
                    if py_lower scheme \<noteq> ''bearer''
                    then Inl (HTTPException 401 ''Invalid authentication scheme'')
                    else if token \<noteq> key
                    then Inl (HTTPException 401 ''Invalid access key'')
                    else Inr True))"

subsection \<open>check_rate_limit_openai\<close>

text \<open>
  The \<open>try\<close> block of the structured recognizer: the three subscripts and \<open>int()\<close>. Any
  exception leaves both results as they were.
\<close>

definition openai_reset :: "config \<Rightarrow> json \<Rightarrow> exn + int" where
  "openai_reset C body =
     then_exn (py_getitem body ''metadata'') (\<lambda>m.
     then_exn (py_getitem m ''headers'') (\<lambda>h.
     then_exn (py_getitem h ''X-RateLimit-Reset'') (\<lambda>v.
     py_int (int_of_str C) v)))"

definition check_rate_limit_openai :: "config \<Rightarrow> api_error \<Rightarrow> bool \<times> int option" where
  "check_rate_limit_openai C err =
     (let (has_rate_limit_error, reset_time_ms) =
            (if py_eq_int (err_code err) (RATE_LIMIT_ERROR_CODE C) \<and> is_dict (err_body err)
             then (case openai_reset C (err_body err) of
                     Inr n \<Rightarrow> (True, Some n)
                   | Inl _ \<Rightarrow> (False, None))
             else (False, None))
      in if reset_time_ms = None \<and> py_in_str (RATE_LIMIT_ERROR_MESSAGE C) (err_message err)
         then (True, reset_time_ms)
         else (has_rate_limit_error, reset_time_ms))"

subsection \<open>check_rate_limit_error\<close>

text \<open>A response of the HTTP client, read in full.\<close>

record http_response =
  up_status :: nat
  up_headers :: headers
  up_body :: string

text \<open>
  The condition of the inner \<open>if\<close>: status and message of \<open>data.get("error", {})\<close>, the
  second looked at only when the first matches.
\<close>

definition error_matches :: "config \<Rightarrow> json \<Rightarrow> exn + bool" where
  "error_matches C data =
     then_exn (py_get data ''error'' (JObj [])) (\<lambda>e.
     then_exn (py_get e ''status'' (JStr [])) (\<lambda>st.
       if py_eq_int st (RATE_LIMIT_ERROR_CODE C)
       then then_exn (py_get e ''message'' (JStr [])) (\<lambda>m.
              Inr (py_eq_str m (RATE_LIMIT_ERROR_MESSAGE C)))
       else Inr False))"

text \<open>The membership test on the metadata headers.\<close>

definition reset_present :: "json \<Rightarrow> exn + bool" where
  "reset_present data =
     then_exn (py_get data ''error'' (JObj [])) (\<lambda>e.
     then_exn (py_get e ''metadata'' (JObj [])) (\<lambda>m.
     then_exn (py_get m ''headers'' (JObj [])) (\<lambda>h.
     py_contains ''X-RateLimit-Reset'' h)))"

text \<open>The inner \<open>try\<close>: four subscripts and \<open>int()\<close>.\<close>

definition reset_value :: "config \<Rightarrow> json \<Rightarrow> exn + int" where
  "reset_value C data =
     then_exn (py_getitem data ''error'') (\<lambda>e.
     then_exn (py_getitem e ''metadata'') (\<lambda>m.
     then_exn (py_getitem m ''headers'') (\<lambda>h.
     then_exn (py_getitem h ''X-RateLimit-Reset'') (\<lambda>v.
     py_int (int_of_str C) v))))"

text \<open>
  Once the error matches, \<open>has_rate_limit_error\<close> is set and stays set: an exception of the
  membership test goes to the outer handler, a ValueError or TypeError of the conversion to
  the inner one, any other exception of the conversion to the outer one; all three leave
  the reset time unset.
\<close>

definition check_rate_limit_error :: "config \<Rightarrow> http_response \<Rightarrow> bool \<times> int option" where
  "check_rate_limit_error C response =
     (let content_type = httpx_get (up_headers response) ''content-type'' []
      in if py_in_str ''application/json'' content_type
         then (case json_loads C (up_body response) of
                 Inl _ \<Rightarrow> (False, None)
               | Inr data \<Rightarrow>
                   (case error_matches C data of
                      Inl _ \<Rightarrow> (False, None)
                    | Inr False \<Rightarrow> (False, None)
                    | Inr True \<Rightarrow>
                        (case reset_present data of
                           Inl _ \<Rightarrow> (True, None)
                         | Inr False \<Rightarrow> (True, None)
                         | Inr True \<Rightarrow>
                             (case reset_value C data of
                                Inr n \<Rightarrow> (True, Some n)
                              | Inl (ValueError _) \<Rightarrow> (True, None)
                              | Inl (TypeError _) \<Rightarrow> (True, None)
                              | Inl _ \<Rightarrow> (True, None)))))
         else (False, None))"

section \<open>routes.py\<close>

subsection \<open>Requests, responses and the outside world\<close>

text \<open>
  An inbound request as the framework hands it over: the method, the header items (all of
  them, a repeated name giving several items), the body bytes, the parsed query parameters
  and the raw query string.
\<close>

record request =
  req_method :: string
  req_headers :: headers
  req_body :: string
  req_query_params :: "(string \<times> string) list"
  req_url_query :: string

datatype content = Buffered string | Streamed "string list"

record response =
  content :: content
  status_code :: nat
  resp_headers :: headers
  media_type :: "string option"

text \<open>The keyword arguments of one call of the OpenAI client, with the key of the client.\<close>

record chat_call =
  chat_key :: string
  chat_args :: "(string \<times> json) list"
  chat_extra_headers :: headers
  chat_extra_body :: "(string \<times> json) list"
  chat_stream :: bool

text \<open>The keyword arguments of one call of the HTTP client.\<close>

record http_call =
  call_method :: string
  call_url :: string
  call_headers :: headers
  call_content :: string

text \<open>
  What a call of the OpenAI client returns: the dump of the completion when it was not
  asked to stream; when it was, the chunks the stream delivers and the exception that ends
  it early, if any.
\<close>

record chunk =
  chunk_choices :: "json list"
  chunk_dump :: json

record chat_result =
  completion_dump :: json
  stream_chunks :: "chunk list"
  stream_error :: "exn option"

text \<open>
  Everything a request does to the outside is recorded, in order: key acquisitions with
  their outcome, key disablings with the reset time passed, and the upstream calls.
\<close>

datatype event =
    Acquire "exn + string option"
  | Disable string "int option"
  | ChatCall chat_call
  | HttpCall http_call

record 's world =
  pool :: 's
  trace :: "event list"

text \<open>
  The key manager (\<open>key_manager.py\<close>) and the upstream are parameters. \<open>get_next_key\<close> may
  raise, return \<open>None\<close> or return a string; the upstream answers a call knowing everything
  that happened before it. \<open>chat_create\<close> stands for the whole call expression
  \<open>client.chat.completions.create(**completion_args, ...)\<close>, so the TypeError that Python
  raises when the body itself has a key named like one of the keyword arguments passed
  beside it is among the exceptions it may return.
\<close>

record 's services =
  get_next_key :: "'s \<Rightarrow> (exn + string option) \<times> 's"
  disable_key :: "string \<Rightarrow> int option \<Rightarrow> 's \<Rightarrow> 's"
  chat_create :: "event list \<Rightarrow> chat_call \<Rightarrow> exn + chat_result"
  http_request :: "event list \<Rightarrow> http_call \<Rightarrow> exn + http_response"

definition acquire :: "'s services \<Rightarrow> 's world \<Rightarrow> (exn + string option) \<times> 's world" where
  "acquire S w =
     (case get_next_key S (pool w) of
        (r, p) \<Rightarrow> (r, w\<lparr>pool := p, trace := trace w @ [Acquire r]\<rparr>))"

definition disable :: "'s services \<Rightarrow> string \<Rightarrow> int option \<Rightarrow> 's world \<Rightarrow> 's world" where
  "disable S k reset w =
     w\<lparr>pool := disable_key S k reset (pool w), trace := trace w @ [Disable k reset]\<rparr>"

definition do_chat :: "'s services \<Rightarrow> chat_call \<Rightarrow> 's world \<Rightarrow> (exn + chat_result) \<times> 's world" where
  "do_chat S call w = (chat_create S (trace w) call, w\<lparr>trace := trace w @ [ChatCall call]\<rparr>)"

definition do_http :: "'s services \<Rightarrow> http_call \<Rightarrow> 's world \<Rightarrow> (exn + http_response) \<times> 's world" where
  "do_http S call w = (http_request S (trace w) call, w\<lparr>trace := trace w @ [HttpCall call]\<rparr>)"

text \<open>Truth value and f-string text of what \<open>get_next_key\<close> returned.\<close>

fun key_truthy :: "string option \<Rightarrow> bool" where
  "key_truthy None = False"
| "key_truthy (Some k) = (k \<noteq> [])"

fun key_text :: "string option \<Rightarrow> string" where
  "key_text None = ''None''"
| "key_text (Some k) = k"

definition rate_limit_text :: "exn \<Rightarrow> bool" where
  "rate_limit_text e = py_in_str ''rate limit'' (py_lower (str_exn e))"

subsection \<open>handle_chat_completions\<close>

definition sse_headers :: headers where
  "sse_headers =
     [(''Cache-Control'', ''no-cache''), (''Connection'', ''keep-alive''),
      (''X-Accel-Buffering'', ''no'')]"

definition done_frame :: string where
  "done_frame = ''data: [DONE]'' @ nl @ nl"

definition chunk_frame :: "config \<Rightarrow> chunk \<Rightarrow> string" where
  "chunk_frame C ch = ''data: '' @ json_dumps C (chunk_dump ch) @ nl @ nl"

text \<open>
  The generator \<open>stream_response\<close>, run to its end: the frames it yields and what it does to
  the world. The end marker is yielded inside the \<open>try\<close>, after the loop; the handler of an
  exception yields nothing.
\<close>

definition stream_response ::
  "'s services \<Rightarrow> config \<Rightarrow> string \<Rightarrow> chat_result \<Rightarrow> 's world \<Rightarrow> string list \<times> 's world" where
  "stream_response S C api_key res w =
     (let frames = map (chunk_frame C) (filter (\<lambda>ch. chunk_choices ch \<noteq> []) (stream_chunks res))
      in case stream_error res of
           None \<Rightarrow> (frames @ [done_frame], w)
         | Some e \<Rightarrow>
             (frames,
              if rate_limit_text e \<and> api_key \<noteq> [] then disable S api_key None w else w))"

definition dict_pop :: "string \<Rightarrow> (string \<times> json) list \<Rightarrow> (string \<times> json) list" where
  "dict_pop k d = filter (\<lambda>(k', v). k' \<noteq> k) d"

definition openai_unsupported_params :: "string list" where
  "openai_unsupported_params = [''include_reasoning'', ''transforms'', ''route'']"

definition build_chat_call ::
  "request \<Rightarrow> (string \<times> json) list \<Rightarrow> string \<Rightarrow> bool \<Rightarrow> chat_call" where
  "build_chat_call request request_body api_key is_stream =
     \<lparr>chat_key = api_key,
      chat_args = dict_pop ''stream'' (foldl (\<lambda>d p. dict_pop p d) request_body openai_unsupported_params),
      chat_extra_headers =
        dict_of_items (filter (\<lambda>(k, v). py_lower k \<in> set [''http-referer'', ''x-title''])
                              (req_headers request)),
      chat_extra_body =
        concat (map (\<lambda>p. case map_of request_body p of Some v \<Rightarrow> [(p, v)] | None \<Rightarrow> [])
                    openai_unsupported_params),
      chat_stream = is_stream\<rparr>"

definition none_copy_error :: exn where
  "none_copy_error =
     AttributeError (CHR 0x27 # ''NoneType'' @ CHR 0x27 # '' object has no attribute ''
                     @ CHR 0x27 # ''copy'' @ [CHR 0x27])"

text \<open>The body of the \<open>try\<close>: either a response or the exception that reaches the handler.\<close>

definition chat_attempt ::
  "'s services \<Rightarrow> config \<Rightarrow> request \<Rightarrow> (string \<times> json) list option \<Rightarrow> string \<Rightarrow> bool \<Rightarrow>
   's world \<Rightarrow> (exn + response) \<times> 's world" where
  "chat_attempt S C request request_body api_key is_stream w =
     (case request_body of
        None \<Rightarrow> (Inl none_copy_error, w)
      | Some body \<Rightarrow>
          (case do_chat S (build_chat_call request body api_key is_stream) w of
             (Inl e, w1) \<Rightarrow> (Inl e, w1)
           | (Inr res, w1) \<Rightarrow>
               if is_stream
               then (case stream_response S C api_key res w1 of
                       (frames, w2) \<Rightarrow>
                         (Inr \<lparr>content = Streamed frames, status_code = 200,
                               resp_headers = sse_headers,
                               media_type = Some ''text/event-stream''\<rparr>, w2))
               else (Inr \<lparr>content = Buffered (json_dumps C (completion_dump res)),
                          status_code = 200, resp_headers = [],
                          media_type = Some ''application/json''\<rparr>, w1)))"

definition chat_error :: "exn \<Rightarrow> exn" where
  "chat_error e = HTTPException 500 (''Error processing chat completion: '' @ str_exn e)"

text \<open>
  The handler calls itself from its own \<open>except\<close> block, so nothing bounds the number of
  rounds but the key manager; the first argument is the number of rounds allowed, and
  \<open>None\<close> says that they did not suffice. An exception of the inner call, or of
  \<open>get_next_key\<close>, is raised inside the \<open>except\<close> block and leaves the handler as it is.
\<close>

fun handle_chat_completions ::
  "nat \<Rightarrow> 's services \<Rightarrow> config \<Rightarrow> request \<Rightarrow> (string \<times> json) list option \<Rightarrow> string \<Rightarrow> bool \<Rightarrow>
   's world \<Rightarrow> ((exn + response) \<times> 's world) option" where
  "handle_chat_completions 0 S C request request_body api_key is_stream w = None"
| "handle_chat_completions (Suc n) S C request request_body api_key is_stream w =
     (case chat_attempt S C request request_body api_key is_stream w of
        (Inr resp, w1) \<Rightarrow> Some (Inr resp, w1)
      | (Inl e, w1) \<Rightarrow>
          if rate_limit_text e \<and> api_key \<noteq> []
          then (case acquire S (disable S api_key None w1) of
                  (Inl x, w2) \<Rightarrow> Some (Inl x, w2)
                | (Inr None, w2) \<Rightarrow> Some (Inl (chat_error e), w2)
                | (Inr (Some new_api_key), w2) \<Rightarrow>
                    if new_api_key \<noteq> []
                    then handle_chat_completions n S C request request_body new_api_key is_stream w2
                    else Some (Inl (chat_error e), w2))
          else Some (Inl (chat_error e), w1))"

subsection \<open>proxy_with_httpx\<close>

text \<open>
  The three handlers of the outer \<open>try\<close>. Every exception raised inside it passes here, the
  \<open>HTTPException\<close>s the body raises itself included: they are exceptions like any other.
\<close>

fun outer_handler :: "exn \<Rightarrow> exn" where
  "outer_handler (ConnectError m) = HTTPException 503 ''Unable to connect to OpenRouter API''"
| "outer_handler (TimeoutException m) = HTTPException 504 ''OpenRouter API request timed out''"
| "outer_handler e = HTTPException 500 (''Proxy error: '' @ str_exn e)"

definition public_headers :: "request \<Rightarrow> headers" where
  "public_headers request =
     dict_of_items
       (filter (\<lambda>(k, v). py_lower k \<notin> set [''host'', ''content-length'', ''connection''])
               (req_headers request))"

definition keyed_headers :: "request \<Rightarrow> string option \<Rightarrow> headers" where
  "keyed_headers request api_key =
     dict_set ''Authorization'' (''Bearer '' @ key_text api_key)
       (dict_of_items
          (filter (\<lambda>(k, v). py_lower k \<notin>
                     set [''host'', ''content-length'', ''connection'', ''authorization''])
                  (req_headers request)))"

definition build_url :: "config \<Rightarrow> request \<Rightarrow> string \<Rightarrow> string" where
  "build_url C request path =
     OPENROUTER_BASE_URL C @ path @
     (if req_query_params request \<noteq> [] then ''?'' @ req_url_query request else [])"

text \<open>Lines 244 to 278: the keyword arguments of the upstream call.\<close>

definition prepare_call ::
  "'s services \<Rightarrow> config \<Rightarrow> request \<Rightarrow> string \<Rightarrow> bool \<Rightarrow> 's world \<Rightarrow> (exn + http_call) \<times> 's world" where
  "prepare_call S C request path is_public w =
     (if is_public
      then (Inr \<lparr>call_method = req_method request, call_url = build_url C request path,
                 call_headers = public_headers request, call_content = req_body request\<rparr>, w)
      else (case acquire S w of
              (Inl e, w1) \<Rightarrow> (Inl e, w1)
            | (Inr api_key, w1) \<Rightarrow>
                (Inr \<lparr>call_method = req_method request, call_url = build_url C request path,
                      call_headers = keyed_headers request api_key,
                      call_content = req_body request\<rparr>, w1)))"

text \<open>Lines 281 to 285: the key in use, read back from the headers to send.\<close>

definition current_key_of :: "headers \<Rightarrow> string option" where
  "current_key_of hs =
     (case map_of hs ''Authorization'' of
        Some v \<Rightarrow> Some (py_replace v ''Bearer '' [])
      | None \<Rightarrow> None)"

definition models_unreachable :: "config \<Rightarrow> exn \<Rightarrow> response" where
  "models_unreachable C e =
     \<lparr>content = Buffered (json_dumps C (JObj [(''error'', JStr ''Could not connect to OpenRouter API''),
                                               (''details'', JStr (str_exn e))])),
      status_code = 503, resp_headers = [], media_type = Some ''application/json''\<rparr>"

text \<open>
  Lines 288 to 319: the first upstream call with its own handler of a connect failure,
  which answers for the models endpoint and raises an \<open>HTTPException\<close> otherwise. That
  exception is raised inside the outer \<open>try\<close>.
\<close>

definition first_request ::
  "'s services \<Rightarrow> config \<Rightarrow> string \<Rightarrow> http_call \<Rightarrow> 's world \<Rightarrow>
   (exn + (response + http_response)) \<times> 's world" where
  "first_request S C path call w =
     (case do_http S call w of
        (Inl (ConnectError m), w1) \<Rightarrow>
          if py_in_str ''/models'' path
          then (Inr (Inl (models_unreachable C (ConnectError m))), w1)
          else (Inl (HTTPException 503 ''Unable to connect to OpenRouter API''), w1)
      | (Inl e, w1) \<Rightarrow> (Inl e, w1)
      | (Inr resp, w1) \<Rightarrow> (Inr (Inr resp), w1))"

text \<open>The response was read in full, so its bytes come as one chunk, or none when empty.\<close>

definition stream_binary :: "http_response \<Rightarrow> response" where
  "stream_binary resp =
     \<lparr>content = Streamed (if up_body resp = [] then [] else [up_body resp]),
      status_code = up_status resp, resp_headers = httpx_headers_dict (up_headers resp),
      media_type = None\<rparr>"

definition sse_line :: "string \<Rightarrow> string list" where
  "sse_line line =
     (if startswith line ''data: ''
      then (if drop 6 line = ''[DONE]'' then [''data: [DONE]'' @ nl @ nl] else [line @ nl @ nl])
      else if line \<noteq> [] then [line @ nl @ nl] else [])"

definition stream_sse :: "config \<Rightarrow> http_response \<Rightarrow> response" where
  "stream_sse C resp =
     \<lparr>content = Streamed (concat (map sse_line (split_lines C (up_body resp)))),
      status_code = 200, resp_headers = sse_headers, media_type = Some ''text/event-stream''\<rparr>"

definition relay :: "http_response \<Rightarrow> response" where
  "relay resp =
     \<lparr>content = Buffered (up_body resp), status_code = up_status resp,
      resp_headers = httpx_headers_dict (up_headers resp), media_type = None\<rparr>"

text \<open>
  Lines 367 to 382: disable the key, take another, send the same call again with the new
  key in the \<open>Authorization\<close> entry.
\<close>

definition retry_request ::
  "'s services \<Rightarrow> http_call \<Rightarrow> string \<Rightarrow> int option \<Rightarrow> 's world \<Rightarrow>
   (exn + http_response) \<times> 's world" where
  "retry_request S call current_key reset_time_ms w =
     (case acquire S (disable S current_key reset_time_ms w) of
        (Inl e, w1) \<Rightarrow> (Inl e, w1)
      | (Inr new_api_key, w1) \<Rightarrow>
          if \<not> key_truthy new_api_key
          then (Inl (HTTPException 429 ''Rate limited and no available API keys''), w1)
          else do_http S
                 (call\<lparr>call_headers :=
                         dict_set ''Authorization'' (''Bearer '' @ key_text new_api_key)
                                  (call_headers call)\<rparr>) w1)"

text \<open>
  Lines 321 to 389: what is done with the answer to the first call. A binary or an
  event-stream answer is relayed at once; any other answer goes through the raw recognizer,
  and a detection with a key in use leads to the one further call.
\<close>

definition answer ::
  "'s services \<Rightarrow> config \<Rightarrow> bool \<Rightarrow> bool \<Rightarrow> http_call \<Rightarrow> http_response \<Rightarrow> 's world \<Rightarrow>
   (exn + response) \<times> 's world" where
  "answer S C is_binary is_stream call resp w =
     (if is_binary then (Inr (stream_binary resp), w)
      else if is_stream \<and>
              py_in_str ''text/event-stream''
                (py_lower (httpx_get (up_headers resp) ''content-type'' []))
      then (Inr (stream_sse C resp), w)
      else (case check_rate_limit_error C resp of
              (has_rate_limit_error, reset_time_ms) \<Rightarrow>
                (case current_key_of (call_headers call) of
                   Some current_key \<Rightarrow>
                     if has_rate_limit_error \<and> current_key \<noteq> []
                     then (case retry_request S call current_key reset_time_ms w of
                             (Inl e, w1) \<Rightarrow> (Inl (outer_handler e), w1)
                           | (Inr resp2, w1) \<Rightarrow> (Inr (relay resp2), w1))
                     else (Inr (relay resp), w)
                 | None \<Rightarrow> (Inr (relay resp), w))))"

definition proxy_with_httpx ::
  "'s services \<Rightarrow> config \<Rightarrow> request \<Rightarrow> string \<Rightarrow> bool \<Rightarrow> bool \<Rightarrow> bool \<Rightarrow> 's world \<Rightarrow>
   (exn + response) \<times> 's world" where
  "proxy_with_httpx S C request path is_public is_binary is_stream w =
     (case prepare_call S C request path is_public w of
        (Inl e, w1) \<Rightarrow> (Inl (outer_handler e), w1)
      | (Inr call, w1) \<Rightarrow>
          (case first_request S C path call w1 of
             (Inl e, w2) \<Rightarrow> (Inl (outer_handler e), w2)
           | (Inr (Inl early), w2) \<Rightarrow> (Inr early, w2)
           | (Inr (Inr resp), w2) \<Rightarrow> answer S C is_binary is_stream call resp w2))"

subsection \<open>proxy_endpoint\<close>

definition is_public_path :: "config \<Rightarrow> string \<Rightarrow> bool" where
  "is_public_path C path = list_ex (\<lambda>ep. startswith (''/api/v1'' @ path) ep) (PUBLIC_ENDPOINTS C)"

definition is_binary_path :: "config \<Rightarrow> string \<Rightarrow> bool" where
  "is_binary_path C path = list_ex (\<lambda>ep. startswith (''/api/v1'' @ path) ep) (BINARY_ENDPOINTS C)"

text \<open>
  Lines 66 to 91. The model name is only looked at to log it, but looking at it can raise
  (a number is not iterable, a list has no \<open>split\<close>), and the handler of the block resets
  the parsed body while \<open>is_stream\<close> keeps what it was given.
\<close>

definition model_logging_raises :: "json \<Rightarrow> bool" where
  "model_logging_raises model =
     (case py_contains '':'' model of
        Inl _ \<Rightarrow> True
      | Inr False \<Rightarrow> False
      | Inr True \<Rightarrow> (case model of JStr _ \<Rightarrow> False | _ \<Rightarrow> True))"

definition parse_body ::
  "config \<Rightarrow> request \<Rightarrow> string \<Rightarrow> (string \<times> json) list option \<times> bool" where
  "parse_body C request path =
     (if req_body request = [] then (None, False)
      else (case json_loads C (req_body request) of
              Inl _ \<Rightarrow> (None, False)
            | Inr (JObj kvs) \<Rightarrow>
                (let is_stream = py_truthy (case map_of kvs ''stream'' of
                                              Some v \<Rightarrow> v | None \<Rightarrow> JBool False)
                 in if py_in_str ''/chat/completions'' path \<and> req_method request = ''POST''
                       \<and> model_logging_raises (case map_of kvs ''model'' of
                                                   Some v \<Rightarrow> v | None \<Rightarrow> JStr [])
                    then (None, is_stream)
                    else (Some kvs, is_stream))
            | Inr _ \<Rightarrow> (None, False)))"

definition proxy_error :: "exn \<Rightarrow> exn" where
  "proxy_error e = HTTPException 500 (''Proxy error: '' @ str_exn e)"

text \<open>Lines 99 to 106, inside the \<open>try\<close> of the endpoint.\<close>

definition endpoint_key :: "'s services \<Rightarrow> bool \<Rightarrow> 's world \<Rightarrow> (exn + string) \<times> 's world" where
  "endpoint_key S is_public w =
     (if \<not> is_public
      then (case acquire S w of
              (Inl e, w1) \<Rightarrow> (Inl e, w1)
            | (Inr None, w1) \<Rightarrow> (Inl (HTTPException 503 ''No available API keys''), w1)
            | (Inr (Some api_key), w1) \<Rightarrow>
                if api_key = [] then (Inl (HTTPException 503 ''No available API keys''), w1)
                else (Inr api_key, w1))
      else (Inr [], w))"

text \<open>
  The endpoint. The \<open>except Exception\<close> of its \<open>try\<close> takes every exception raised from
  line 99 on, whatever its class, and raises status 500 in its place.
\<close>

definition proxy_endpoint ::
  "nat \<Rightarrow> 's services \<Rightarrow> config \<Rightarrow> request \<Rightarrow> string \<Rightarrow> string option \<Rightarrow> 's world \<Rightarrow>
   ((exn + response) \<times> 's world) option" where
  "proxy_endpoint fuel S C request path authorization w =
     (let is_public = is_public_path C path;
          is_binary = is_binary_path C path
      in case (if \<not> is_public then verify_access_key authorization (access_key C) else Inr True) of
           Inl e \<Rightarrow> Some (Inl e, w)
         | Inr _ \<Rightarrow>
             (case parse_body C request path of
                (request_body, is_stream) \<Rightarrow>
                  if is_binary \<or> py_in_str ''/models'' path \<or> \<not> py_in_str ''/chat/completions'' path
                  then Some (proxy_with_httpx S C request path is_public is_binary is_stream w)
                  else (case endpoint_key S is_public w of
                          (Inl e, w1) \<Rightarrow> Some (Inl (proxy_error e), w1)
                        | (Inr api_key, w1) \<Rightarrow>
                            if py_in_str ''/chat/completions'' path
                            then (case handle_chat_completions fuel S C request request_body
                                         api_key is_stream w1 of
                                    None \<Rightarrow> None
                                  | Some (Inl e, w2) \<Rightarrow> Some (Inl (proxy_error e), w2)
                                  | Some (Inr resp, w2) \<Rightarrow> Some (Inr resp, w2))
                            else (case proxy_with_httpx S C request path is_public is_binary
                                         is_stream w1 of
                                    (Inl e, w2) \<Rightarrow> Some (Inl (proxy_error e), w2)
                                  | (Inr resp, w2) \<Rightarrow> Some (Inr resp, w2)))))"

section \<open>Reading the record of a request\<close>

fun http_calls :: "event list \<Rightarrow> http_call list" where
  "http_calls [] = []"
| "http_calls (HttpCall c # t) = c # http_calls t"
| "http_calls (_ # t) = http_calls t"

fun chat_calls :: "event list \<Rightarrow> chat_call list" where
  "chat_calls [] = []"
| "chat_calls (ChatCall c # t) = c # chat_calls t"
| "chat_calls (_ # t) = chat_calls t"

fun disablings :: "event list \<Rightarrow> (string \<times> int option) list" where
  "disablings [] = []"
| "disablings (Disable k r # t) = (k, r) # disablings t"
| "disablings (_ # t) = disablings t"

fun acquisitions :: "event list \<Rightarrow> (exn + string option) list" where
  "acquisitions [] = []"
| "acquisitions (Acquire r # t) = r # acquisitions t"
| "acquisitions (_ # t) = acquisitions t"

text \<open>What a request added to the record.\<close>

definition added :: "'s world \<Rightarrow> 's world \<Rightarrow> event list" where
  "added w w' = drop (length (trace w)) (trace w')"

text \<open>The status a caller sees: that of the response, or that of the exception raised.\<close>

fun surfaced_status :: "exn + response \<Rightarrow> nat option" where
  "surfaced_status (Inr r) = Some (status_code r)"
| "surfaced_status (Inl (HTTPException c d)) = Some c"
| "surfaced_status (Inl _) = None"

section \<open>The raw recognizer in the words of the specification\<close>

text \<open>
  The top-level error object of a buffered response: the content type indicates JSON, the
  body parses to an object, and its \<open>error\<close> entry is an object.
\<close>

definition raw_error_object :: "config \<Rightarrow> http_response \<Rightarrow> (string \<times> json) list option" where
  "raw_error_object C response =
     (if py_in_str ''application/json'' (httpx_get (up_headers response) ''content-type'' [])
      then (case json_loads C (up_body response) of
              Inr (JObj d) \<Rightarrow> (case map_of d ''error'' of Some (JObj e) \<Rightarrow> Some e | _ \<Rightarrow> None)
            | _ \<Rightarrow> None)
      else None)"

text \<open>Its status equals the rate-limit code and its message is the known string.\<close>

definition raw_signature :: "config \<Rightarrow> http_response \<Rightarrow> bool" where
  "raw_signature C response =
     (case raw_error_object C response of
        None \<Rightarrow> False
      | Some e \<Rightarrow>
          (case map_of e ''status'' of
             Some st \<Rightarrow> py_eq_int st (RATE_LIMIT_ERROR_CODE C)
           | None \<Rightarrow> False) \<and>
          map_of e ''message'' = Some (JStr (RATE_LIMIT_ERROR_MESSAGE C)))"

text \<open>
  The \<open>X-RateLimit-Reset\<close> entry of the error's metadata headers, when it is there and
  converts to an int.
\<close>

definition raw_reset :: "config \<Rightarrow> http_response \<Rightarrow> int option" where
  "raw_reset C response =
     (case raw_error_object C response of
        None \<Rightarrow> None
      | Some e \<Rightarrow>
          (case map_of e ''metadata'' of
             Some (JObj m) \<Rightarrow>
               (case map_of m ''headers'' of
                  Some (JObj h) \<Rightarrow>
                    (case map_of h ''X-RateLimit-Reset'' of
                       Some v \<Rightarrow> (case py_int (int_of_str C) v of Inr n \<Rightarrow> Some n | Inl _ \<Rightarrow> None)
                     | None \<Rightarrow> None)
                | _ \<Rightarrow> None)
           | _ \<Rightarrow> None))"

section \<open>The key pool\<close>

text \<open>
  Modelled from the spec: \<open>key_manager.py\<close> is not among the sources, so the pool behind
  \<open>get_next_key\<close> and \<open>disable_key\<close> follows sections 3 and 4.1 of the specification. A key is
  Available when it has no \<open>cooling_until\<close>. Acquisition first makes Available again every
  key whose \<open>cooling_until\<close> has passed, then takes the first Available key from the cursor on
  in round-robin order, and moves the cursor on by one. The specification says that
  acquisition fails when no key is Available but not how the caller sees it, so what it
  yields then (an exception raised, or a value returned) is the field \<open>when_exhausted\<close>.
  Disabling sets \<open>cooling_until\<close> to the reset time given, or to now plus the default
  cooldown. The pool serves only as the key manager of the examples below.
\<close>

record api_key =
  secret :: string
  cooling_until :: "int option"

record key_pool =
  pool_keys :: "api_key list"
  cursor :: nat
  default_cooldown :: int
  now :: int
  when_exhausted :: "exn + string option"

definition reactivate :: "int \<Rightarrow> api_key \<Rightarrow> api_key" where
  "reactivate t k =
     (case cooling_until k of
        Some u \<Rightarrow> if u \<le> t then k\<lparr>cooling_until := None\<rparr> else k
      | None \<Rightarrow> k)"

definition pool_acquire :: "key_pool \<Rightarrow> (exn + string option) \<times> key_pool" where
  "pool_acquire p =
     (let ks = map (reactivate (now p)) (pool_keys p);
          p' = p\<lparr>pool_keys := ks, cursor := (cursor p + 1) mod length ks\<rparr>
      in case filter (\<lambda>k. cooling_until k = None) (rotate (cursor p) ks) of
           [] \<Rightarrow> (when_exhausted p, p')
         | k # _ \<Rightarrow> (Inr (Some (secret k)), p'))"

definition pool_disable :: "string \<Rightarrow> int option \<Rightarrow> key_pool \<Rightarrow> key_pool" where
  "pool_disable key reset p =
     p\<lparr>pool_keys :=
         map (\<lambda>k. if secret k = key
                   then k\<lparr>cooling_until :=
                            Some (case reset of Some t \<Rightarrow> t | None \<Rightarrow> now p + default_cooldown p)\<rparr>
                   else k)
             (pool_keys p)\<rparr>"

section \<open>An environment for the examples\<close>

text \<open>
  Stand-ins for the library functions, enough for the examples: a parser that knows the
  bodies used below, a printer that prints a JSON string as its text, the conversion of a
  run of decimal digits, and a splitter that takes the text as one line.
\<close>

definition rate_limit_body :: string where
  \<open>rate_limit_body = ''{"error": {"status": 429, "message": "Rate limit exceeded: free-models-per-day", "metadata": {"headers": {"X-RateLimit-Reset": "1700000000000"}}}}''\<close>

definition rate_limit_json :: json where
  "rate_limit_json =
     JObj [(''error'', JObj [(''status'', JInt 429),
                             (''message'', JStr ''Rate limit exceeded: free-models-per-day''),
                             (''metadata'', JObj [(''headers'',
                                JObj [(''X-RateLimit-Reset'', JStr ''1700000000000'')])])])]"

definition chat_body :: string where
  \<open>chat_body = ''{"model": "m", "route": "fallback"}''\<close>

definition chat_stream_body :: string where
  \<open>chat_stream_body = ''{"model": "m", "stream": true}''\<close>

definition ex_loads :: "string \<Rightarrow> exn + json" where
  "ex_loads s =
     (if s = rate_limit_body then Inr rate_limit_json
      else if s = chat_body then Inr (JObj [(''model'', JStr ''m''), (''route'', JStr ''fallback'')])
      else if s = chat_stream_body then Inr (JObj [(''model'', JStr ''m''), (''stream'', JBool True)])
      else Inl (ValueError ''Expecting value''))"

definition ex_dumps :: "json \<Rightarrow> string" where
  "ex_dumps j = (case j of JStr t \<Rightarrow> t | _ \<Rightarrow> ''{}'')"

definition digits_to_int :: "string \<Rightarrow> int option" where
  "digits_to_int s =
     (if s \<noteq> [] \<and> list_all (\<lambda>c. 48 \<le> (of_char c :: nat) \<and> (of_char c :: nat) \<le> 57) s
      then Some (foldl (\<lambda>a c. 10 * a + (int (of_char c) - 48)) 0 s)
      else None)"

definition ex_config :: config where
  "ex_config =
     \<lparr>access_key = ''local-key'',
      OPENROUTER_BASE_URL = ''https://openrouter.ai/api/v1'',
      PUBLIC_ENDPOINTS = [''/api/v1/models'', ''/api/v1/demo''],
      BINARY_ENDPOINTS = [''/api/v1/generation''],
      RATE_LIMIT_ERROR_CODE = 429,
      RATE_LIMIT_ERROR_MESSAGE = ''Rate limit exceeded: free-models-per-day'',
      json_loads = ex_loads,
      json_dumps = ex_dumps,
      int_of_str = digits_to_int,
      split_lines = (\<lambda>s. [s])\<rparr>"

text \<open>Upstream answers.\<close>

definition rate_limited_response :: http_response where
  "rate_limited_response =
     \<lparr>up_status = 429, up_headers = [(''Content-Type'', ''application/json'')],
      up_body = rate_limit_body\<rparr>"

definition ok_response :: http_response where
  "ok_response =
     \<lparr>up_status = 200, up_headers = [(''Content-Type'', ''text/plain'')], up_body = ''ok''\<rparr>"

definition rate_limit_api_error :: api_error where
  "rate_limit_api_error =
     \<lparr>err_code = JInt 429,
      err_body = JObj [(''metadata'', JObj [(''headers'',
                   JObj [(''X-RateLimit-Reset'', JStr ''1700000000000'')])])],
      err_message = ''Rate limit exceeded: free-models-per-day''\<rparr>"

definition provider_api_error :: api_error where
  "provider_api_error = rate_limit_api_error\<lparr>err_message := ''Provider returned error''\<rparr>"

definition server_api_error :: api_error where
  "server_api_error =
     \<lparr>err_code = JInt 500, err_body = JNull, err_message = ''Internal server error''\<rparr>"

definition ok_chat :: chat_result where
  "ok_chat = \<lparr>completion_dump = JStr ''completion'', stream_chunks = [], stream_error = None\<rparr>"

definition dropped_stream :: chat_result where
  "dropped_stream =
     \<lparr>completion_dump = JNull,
      stream_chunks =
        [\<lparr>chunk_choices = [JObj []], chunk_dump = JStr ''one''\<rparr>,
         \<lparr>chunk_choices = [JObj []], chunk_dump = JStr ''two''\<rparr>,
         \<lparr>chunk_choices = [JObj []], chunk_dump = JStr ''three''\<rparr>],
      stream_error = Some (OtherException ''Connection dropped'')\<rparr>"

text \<open>An upstream that answers the first \<open>n\<close> calls of a request with the rate-limit error.\<close>

definition chat_limited :: "nat \<Rightarrow> event list \<Rightarrow> chat_call \<Rightarrow> exn + chat_result" where
  "chat_limited n hist call =
     (if length (chat_calls hist) < n then Inl (APIError rate_limit_api_error) else Inr ok_chat)"

definition http_limited :: "nat \<Rightarrow> event list \<Rightarrow> http_call \<Rightarrow> exn + http_response" where
  "http_limited n hist call =
     (if length (http_calls hist) < n then Inr rate_limited_response else Inr ok_response)"

definition ex_services ::
  "(event list \<Rightarrow> chat_call \<Rightarrow> exn + chat_result) \<Rightarrow>
   (event list \<Rightarrow> http_call \<Rightarrow> exn + http_response) \<Rightarrow> key_pool services" where
  "ex_services chat http =
     \<lparr>get_next_key = pool_acquire, disable_key = pool_disable,
      chat_create = chat, http_request = http\<rparr>"

definition ex_world :: "string list \<Rightarrow> exn + string option \<Rightarrow> key_pool world" where
  "ex_world ks ex =
     \<lparr>pool = \<lparr>pool_keys = map (\<lambda>k. \<lparr>secret = k, cooling_until = None\<rparr>) ks, cursor = 0,
              default_cooldown = 60000, now = 1000, when_exhausted = ex\<rparr>,
      trace = []\<rparr>"

definition ex_request :: "string \<Rightarrow> string \<Rightarrow> request" where
  "ex_request m b =
     \<lparr>req_method = m,
      req_headers = [(''host'', ''localhost:5555''), (''authorization'', ''Bearer local-key''),
                     (''accept'', ''*/*'')],
      req_body = b, req_query_params = [], req_url_query = []\<rparr>"

section \<open>Further notions used in the statements\<close>

text \<open>The condition of line 94, negated: the request goes to the OpenAI client.\<close>

definition structured_route :: "config \<Rightarrow> string \<Rightarrow> bool" where
  "structured_route C path =
     (\<not> is_binary_path C path \<and> \<not> py_in_str ''/models'' path \<and>
      py_in_str ''/chat/completions'' path)"

text \<open>A call of the OpenAI client that is the call of this request, whatever its key.\<close>

definition same_call_but_key ::
  "request \<Rightarrow> (string \<times> json) list option \<Rightarrow> bool \<Rightarrow> chat_call \<Rightarrow> bool" where
  "same_call_but_key request rb is_stream c =
     (case rb of
        None \<Rightarrow> False
      | Some body \<Rightarrow> c = build_chat_call request body (chat_key c) is_stream)"

text \<open>An acquisition that yielded a key the handlers go on with.\<close>

fun usable :: "exn + string option \<Rightarrow> bool" where
  "usable (Inr (Some k)) = (k \<noteq> [])"
| "usable _ = False"

text \<open>
  A run in short: the status the caller sees, the number of calls of the OpenAI client and
  of the HTTP client, and the disablings with their reset times.
\<close>

definition run_summary ::
  "((exn + response) \<times> 's world) option \<Rightarrow>
   (nat option \<times> nat \<times> nat \<times> (string \<times> int option) list) option" where
  "run_summary res =
     (case res of
        None \<Rightarrow> None
      | Some (r, w) \<Rightarrow>
          Some (surfaced_status r, length (chat_calls (trace w)), length (http_calls (trace w)),
                disablings (trace w)))"

text \<open>The frames of a streamed response.\<close>

definition frames_of :: "((exn + response) \<times> 's world) option \<Rightarrow> string list option" where
  "frames_of res =
     (case res of
        Some (Inr resp, w) \<Rightarrow> (case content resp of Streamed fs \<Rightarrow> Some fs | Buffered _ \<Rightarrow> None)
      | _ \<Rightarrow> None)"

text \<open>More upstreams and inputs for the examples.\<close>

definition chat_fails :: "exn \<Rightarrow> event list \<Rightarrow> chat_call \<Rightarrow> exn + chat_result" where
  "chat_fails e hist call = Inl e"

definition chat_streams :: "chat_result \<Rightarrow> event list \<Rightarrow> chat_call \<Rightarrow> exn + chat_result" where
  "chat_streams res hist call = Inr res"

definition http_unreachable :: "event list \<Rightarrow> http_call \<Rightarrow> exn + http_response" where
  "http_unreachable hist call = Inl (ConnectError ''All connection attempts failed'')"

definition cooling_world :: "string list \<Rightarrow> exn + string option \<Rightarrow> key_pool world" where
  "cooling_world ks ex =
     \<lparr>pool = \<lparr>pool_keys = map (\<lambda>k. \<lparr>secret = k, cooling_until = Some 5000\<rparr>) ks, cursor = 0,
              default_cooldown = 60000, now = 1000, when_exhausted = ex\<rparr>,
      trace = []\<rparr>"

text \<open>
  A key manager that never runs out within a request, as a pool with many keys behaves:
  its state counts the keys handed out, and the \<open>n\<close>-th key is \<open>n + 1\<close> letters \<open>k\<close>.
\<close>

definition spare_services ::
  "(event list \<Rightarrow> chat_call \<Rightarrow> exn + chat_result) \<Rightarrow>
   (event list \<Rightarrow> http_call \<Rightarrow> exn + http_response) \<Rightarrow> nat services" where
  "spare_services chat http =
     \<lparr>get_next_key = (\<lambda>n. (Inr (Some (replicate (Suc n) (CHR ''k''))), Suc n)),
      disable_key = (\<lambda>k t n. n),
      chat_create = chat, http_request = http\<rparr>"

definition repeated_header_request :: request where
  "repeated_header_request =
     \<lparr>req_method = ''GET'',
      req_headers = [(''host'', ''localhost:5555''), (''accept'', ''text/html''),
                     (''accept'', ''application/json'')],
      req_body = [], req_query_params = [], req_url_query = []\<rparr>"

section \<open>The recognizers\<close>

lemma then_exn_simps [simp]:
  "then_exn (Inl e) f = Inl e"
  "then_exn (Inr x) f = f x"
  by (simp_all add: then_exn_def)

lemma py_eq_str_iff [simp]: "py_eq_str x s \<longleftrightarrow> x = JStr s"
  by (cases x) auto

text \<open>
  Claim C6. For every buffered upstream response the raw recognizer detects a rate limit
  if and only if the content type indicates JSON, the body parses, and the top-level error
  object has the rate-limit code as its status and exactly the known string as its message;
  when it detects one it returns the \<open>X-RateLimit-Reset\<close> entry of the error's metadata
  headers if that entry is present and converts to an int, and no reset time otherwise.
  The known message is not the empty string.
\<close>

theorem raw_recognizer:
  assumes "RATE_LIMIT_ERROR_MESSAGE C \<noteq> []"
  shows "check_rate_limit_error C response =
         (if raw_signature C response then (True, raw_reset C response) else (False, None))"
  using assms
  unfolding check_rate_limit_error_def raw_signature_def raw_reset_def raw_error_object_def
    error_matches_def reset_present_def reset_value_def Let_def
  by (auto split: sum.splits json.splits option.splits bool.splits exn.splits)

theorem raw_recognizer_witness:
  "RATE_LIMIT_ERROR_MESSAGE ex_config \<noteq> [] \<and>
   raw_signature ex_config rate_limited_response \<and>
   check_rate_limit_error ex_config rate_limited_response = (True, Some 1700000000000)"
proof -
  have h: "RATE_LIMIT_ERROR_MESSAGE ex_config \<noteq> []"
    by (simp add: ex_config_def)
  have sig: "raw_signature ex_config rate_limited_response"
    by code_simp
  have rs: "raw_reset ex_config rate_limited_response = Some 1700000000000"
    by code_simp
  show ?thesis
    using raw_recognizer [OF h, of rate_limited_response] h sig rs by simp
qed

text \<open>
  Claim C10. Whenever either recognizer reports that no rate limit was detected, the reset
  time it returns is \<open>None\<close>.
\<close>

theorem reset_only_when_detected:
  "(\<not> fst (check_rate_limit_openai C err) \<longrightarrow> snd (check_rate_limit_openai C err) = None) \<and>
   (\<not> fst (check_rate_limit_error C response) \<longrightarrow>
      snd (check_rate_limit_error C response) = None)"
  unfolding check_rate_limit_openai_def check_rate_limit_error_def Let_def
  by (auto split: sum.splits json.splits option.splits bool.splits exn.splits)

theorem reset_only_when_detected_witness:
  "\<not> fst (check_rate_limit_openai ex_config server_api_error) \<and>
   snd (check_rate_limit_openai ex_config server_api_error) = None \<and>
   \<not> fst (check_rate_limit_error ex_config ok_response) \<and>
   snd (check_rate_limit_error ex_config ok_response) = None"
proof -
  have a: "\<not> fst (check_rate_limit_openai ex_config server_api_error)"
    by code_simp
  have b: "\<not> fst (check_rate_limit_error ex_config ok_response)"
    by code_simp
  show ?thesis
    using reset_only_when_detected [of ex_config server_api_error ok_response] a b by simp
qed

section \<open>Authentication\<close>

lemma partition_scheme:
  "CHR '' '' \<notin> set scheme \<Longrightarrow>
   py_partition (CHR '' '') (scheme @ CHR '' '' # token) = (scheme, [CHR '' ''], token)"
proof -
  assume a: "CHR '' '' \<notin> set scheme"
  then have d: "dropWhile (\<lambda>c. c \<noteq> CHR '' '') (scheme @ CHR '' '' # token) = CHR '' '' # token"
    by (induction scheme) auto
  from a have t: "takeWhile (\<lambda>c. c \<noteq> CHR '' '') (scheme @ CHR '' '' # token) = scheme"
    by (induction scheme) auto
  show ?thesis
    by (simp add: py_partition_def d t)
qed

text \<open>
  Claim C7. On a path that is not public the access key is verified before anything else
  happens: without an Authorization header (or with an empty one), with a scheme that is
  not \<open>bearer\<close> in any mix of cases, or with a token other than the configured access key,
  verification raises status 401, and the endpoint raises it with nothing added to the
  record of the request and the key pool untouched; a header made of a spelling of \<open>bearer\<close>,
  one space and the access key passes.
\<close>

theorem access_key_checked:
  "verify_access_key None key = Inl (HTTPException 401 ''Authorization header missing'') \<and>
   verify_access_key (Some []) key = Inl (HTTPException 401 ''Authorization header missing'') \<and>
   (a \<noteq> [] \<and> py_lower (fst (py_partition (CHR '' '') a)) \<noteq> ''bearer'' \<longrightarrow>
      verify_access_key (Some a) key = Inl (HTTPException 401 ''Invalid authentication scheme'')) \<and>
   (b \<noteq> [] \<and> py_lower (fst (py_partition (CHR '' '') b)) = ''bearer'' \<and>
    snd (snd (py_partition (CHR '' '') b)) \<noteq> key \<longrightarrow>
      verify_access_key (Some b) key = Inl (HTTPException 401 ''Invalid access key'')) \<and>
   (py_lower scheme = ''bearer'' \<and> CHR '' '' \<notin> set scheme \<longrightarrow>
      verify_access_key (Some (scheme @ '' '' @ key)) key = Inr True) \<and>
   (\<not> is_public_path C path \<and> verify_access_key authorization (access_key C) = Inl e \<longrightarrow>
      proxy_endpoint fuel S C request path authorization w = Some (Inl e, w))"
proof -
  have ok: "verify_access_key (Some (scheme @ '' '' @ key)) key = Inr True"
    if "py_lower scheme = ''bearer''" "CHR '' '' \<notin> set scheme"
  proof -
    from that(1) have "scheme \<noteq> []" by (auto simp: py_lower_def)
    with that show ?thesis
      by (simp add: verify_access_key_def partition_scheme)
  qed
  show ?thesis
    using ok
    by (auto simp: verify_access_key_def proxy_endpoint_def Let_def split: prod.splits)
qed

theorem access_key_checked_witness:
  "py_lower (fst (py_partition (CHR '' '') ''Basic local-key'')) \<noteq> ''bearer'' \<and>
   verify_access_key (Some ''Basic local-key'') ''local-key''
     = Inl (HTTPException 401 ''Invalid authentication scheme'') \<and>
   py_lower (fst (py_partition (CHR '' '') ''Bearer other-key'')) = ''bearer'' \<and>
   snd (snd (py_partition (CHR '' '') ''Bearer other-key'')) \<noteq> ''local-key'' \<and>
   verify_access_key (Some ''Bearer other-key'') ''local-key''
     = Inl (HTTPException 401 ''Invalid access key'') \<and>
   py_lower ''BEARER'' = ''bearer'' \<and> CHR '' '' \<notin> set ''BEARER'' \<and>
   verify_access_key (Some ''BEARER local-key'') ''local-key'' = Inr True \<and>
   \<not> is_public_path ex_config ''/auth/key'' \<and>
   verify_access_key None (access_key ex_config)
     = Inl (HTTPException 401 ''Authorization header missing'') \<and>
   proxy_endpoint 1 (ex_services (chat_limited 0) (http_limited 0)) ex_config
       (ex_request ''GET'' []) ''/auth/key'' None (ex_world [''A''] (Inr None))
     = Some (Inl (HTTPException 401 ''Authorization header missing''),
             ex_world [''A''] (Inr None))"
proof -
  have h1: "py_lower (fst (py_partition (CHR '' '') ''Basic local-key'')) \<noteq> ''bearer''"
    by code_simp
  have h2: "py_lower (fst (py_partition (CHR '' '') ''Bearer other-key'')) = ''bearer''"
    by code_simp
  have h3: "snd (snd (py_partition (CHR '' '') ''Bearer other-key'')) \<noteq> ''local-key''"
    by code_simp
  have h4: "py_lower ''BEARER'' = ''bearer''"
    by code_simp
  have h5: "CHR '' '' \<notin> set ''BEARER''"
    by simp
  have h6: "\<not> is_public_path ex_config ''/auth/key''"
    by code_simp
  have h7: "verify_access_key None (access_key ex_config)
              = Inl (HTTPException 401 ''Authorization header missing'')"
    by (simp add: verify_access_key_def)
  show ?thesis
    using access_key_checked [of "''local-key''" "''Basic local-key''" "''Bearer other-key''"
        "''BEARER''" ex_config "''/auth/key''" None
        "HTTPException 401 ''Authorization header missing''" 1
        "ex_services (chat_limited 0) (http_limited 0)" "ex_request ''GET'' []"
        "ex_world [''A''] (Inr None)"]
      h1 h2 h3 h4 h5 h6 h7
    by simp
qed

section \<open>Dicts of headers\<close>

lemma map_of_dict_set: "map_of (dict_set k v d) = (map_of d)(k \<mapsto> v)"
  by (induction d) (auto simp: fun_eq_iff)

lemma dict_set_fresh: "k \<notin> fst ` set d \<Longrightarrow> dict_set k v d = d @ [(k, v)]"
  by (induction d) auto

lemma keys_dict_set: "x \<in> fst ` set (dict_set k v d) \<longleftrightarrow> x = k \<or> x \<in> fst ` set d"
  by (induction d) force+

lemma distinct_dict_set: "distinct (map fst d) \<Longrightarrow> distinct (map fst (dict_set k v d))"
  by (induction d) (auto simp: keys_dict_set)

lemma foldl_dict_set_map_of:
  "map_of (foldl (\<lambda>d (k, v). dict_set k v d) d0 items) = map_of d0 ++ map_of (rev items)"
proof (induction items arbitrary: d0)
  case Nil
  then show ?case by simp
next
  case (Cons kv items)
  obtain k v where kv: "kv = (k, v)" by (cases kv)
  show ?case
    by (simp add: kv Cons.IH map_of_dict_set fun_eq_iff map_add_def split: option.splits)
qed

lemma foldl_dict_set_distinct:
  "distinct (map fst d0) \<Longrightarrow> distinct (map fst (foldl (\<lambda>d (k, v). dict_set k v d) d0 items))"
  by (induction items arbitrary: d0) (auto simp: distinct_dict_set)

lemma foldl_dict_set_fresh:
  "distinct (map fst (d0 @ items)) \<Longrightarrow> foldl (\<lambda>d (k, v). dict_set k v d) d0 items = d0 @ items"
proof (induction items arbitrary: d0)
  case Nil
  then show ?case by simp
next
  case (Cons kv items)
  obtain k v where kv: "kv = (k, v)" by (cases kv)
  from Cons.prems have fresh: "k \<notin> fst ` set d0" by (auto simp: kv)
  from Cons.prems have "distinct (map fst ((d0 @ [(k, v)]) @ items))" by (auto simp: kv)
  from Cons.IH [OF this] show ?case by (simp add: kv dict_set_fresh [OF fresh])
qed

lemma map_of_dict_of_items: "map_of (dict_of_items items) = map_of (rev items)"
  by (simp add: dict_of_items_def foldl_dict_set_map_of)

lemma distinct_dict_of_items: "distinct (map fst (dict_of_items items))"
  by (simp add: dict_of_items_def foldl_dict_set_distinct)

lemma dict_of_items_distinct: "distinct (map fst items) \<Longrightarrow> dict_of_items items = items"
  using foldl_dict_set_fresh [of "[]" items] by (simp add: dict_of_items_def)

lemma map_of_rev_filter:
  "map_of (rev (filter (\<lambda>(k, v). P k) items)) k = (if P k then map_of (rev items) k else None)"
  by (induction items) (auto simp: map_add_def split: option.splits)

lemma keys_filter_excluded:
  "k \<in> fst ` set (filter (\<lambda>(k, v). P k) items) \<Longrightarrow> P k"
  by auto


section \<open>What the handlers add to the record\<close>

lemma http_calls_append [simp]: "http_calls (xs @ ys) = http_calls xs @ http_calls ys"
  by (induction xs rule: http_calls.induct) auto

lemma chat_calls_append [simp]: "chat_calls (xs @ ys) = chat_calls xs @ chat_calls ys"
  by (induction xs rule: chat_calls.induct) auto

lemma disablings_append [simp]: "disablings (xs @ ys) = disablings xs @ disablings ys"
  by (induction xs rule: disablings.induct) auto

lemma acquisitions_append [simp]: "acquisitions (xs @ ys) = acquisitions xs @ acquisitions ys"
  by (induction xs rule: acquisitions.induct) auto

lemma added_append [simp]: "trace w' = trace w @ new \<Longrightarrow> added w w' = new"
  by (simp add: added_def)

lemma key_truthy_Some: "key_truthy k \<Longrightarrow> \<exists>s. k = Some s \<and> s \<noteq> []"
  by (cases k) auto

text \<open>The three stages of the raw path, one at a time.\<close>

lemma prepare_call_public:
  "prepare_call S C request path True w =
     (Inr \<lparr>call_method = req_method request, call_url = build_url C request path,
           call_headers = public_headers request, call_content = req_body request\<rparr>, w)"
  by (simp add: prepare_call_def)

lemma prepare_call_keyed:
  assumes "get_next_key S (pool w) = (r, p)"
  shows "prepare_call S C request path False w =
     (case r of
        Inl e \<Rightarrow> Inl e
      | Inr k \<Rightarrow> Inr \<lparr>call_method = req_method request, call_url = build_url C request path,
                      call_headers = keyed_headers request k, call_content = req_body request\<rparr>,
      w\<lparr>pool := p, trace := trace w @ [Acquire r]\<rparr>)"
  using assms by (simp add: prepare_call_def acquire_def split: sum.splits)

lemma first_request_world:
  "snd (first_request S C path call w) = w\<lparr>trace := trace w @ [HttpCall call]\<rparr>"
  by (simp add: first_request_def do_http_def split: sum.splits exn.splits)

lemma first_request_answer:
  "first_request S C path call w = (Inr (Inr resp), w1) \<Longrightarrow> http_request S (trace w) call = Inr resp"
  by (auto simp: first_request_def do_http_def split: sum.splits exn.splits if_splits)

lemma retry_request_cases:
  assumes "get_next_key S (disable_key S k t (pool w)) = (r, p)"
  shows "retry_request S call k t w =
     (case r of
        Inl e \<Rightarrow> (Inl e, w\<lparr>pool := p, trace := trace w @ [Disable k t, Acquire r]\<rparr>)
      | Inr new_key \<Rightarrow>
          if \<not> key_truthy new_key
          then (Inl (HTTPException 429 ''Rate limited and no available API keys''),
                w\<lparr>pool := p, trace := trace w @ [Disable k t, Acquire r]\<rparr>)
          else (http_request S (trace w @ [Disable k t, Acquire r])
                  (call\<lparr>call_headers := dict_set ''Authorization'' (''Bearer '' @ key_text new_key)
                                            (call_headers call)\<rparr>),
                w\<lparr>pool := p,
                  trace := trace w @ [Disable k t, Acquire r,
                     HttpCall (call\<lparr>call_headers :=
                        dict_set ''Authorization'' (''Bearer '' @ key_text new_key)
                                 (call_headers call)\<rparr>)]\<rparr>))"
  using assms
  by (simp add: retry_request_def acquire_def disable_def do_http_def split: sum.splits)

text \<open>What the answer stage adds: nothing, or a disabling and an acquisition, or those and one call.\<close>

lemma answer_record:
  assumes "answer S C is_binary is_stream call resp w = (r, w')"
  obtains (relayed) x where "w' = w" "r = Inr x"
  | (exhausted) k t r0 p e where "k \<noteq> []" "current_key_of (call_headers call) = Some k"
      "w' = w\<lparr>pool := p, trace := trace w @ [Disable k t, Acquire r0]\<rparr>"
      "r = Inl (outer_handler e)"
      "r0 = Inl e \<or> (e = HTTPException 429 ''Rate limited and no available API keys'' \<and>
                       (\<exists>nk. r0 = Inr nk \<and> \<not> key_truthy nk))"
  | (retried) k t s p where "k \<noteq> []" "s \<noteq> []" "current_key_of (call_headers call) = Some k"
      "w' = w\<lparr>pool := p, trace := trace w @ [Disable k t, Acquire (Inr (Some s)),
                     HttpCall (call\<lparr>call_headers :=
                        dict_set ''Authorization'' (''Bearer '' @ s) (call_headers call)\<rparr>)]\<rparr>"
      "r = (case http_request S (trace w @ [Disable k t, Acquire (Inr (Some s))])
                        (call\<lparr>call_headers :=
                            dict_set ''Authorization'' (''Bearer '' @ s) (call_headers call)\<rparr>) of
                   Inl e \<Rightarrow> Inl (outer_handler e)
                 | Inr resp2 \<Rightarrow> Inr (relay resp2))"
proof (cases "is_binary \<or> (is_stream \<and> py_in_str ''text/event-stream''
                (py_lower (httpx_get (up_headers resp) ''content-type'' [])))")
  case True
  with assms have "w' = w" "\<exists>x. r = Inr x"
    by (auto simp: answer_def split: if_splits)
  with relayed show ?thesis
    by blast
next
  case False
  obtain has t where chk: "check_rate_limit_error C resp = (has, t)"
    by force
  show ?thesis
  proof (cases "current_key_of (call_headers call)")
    case None
    with assms False chk have "w' = w" "r = Inr (relay resp)"
      by (auto simp: answer_def)
    with relayed show ?thesis
      by blast
  next
    case (Some k)
    show ?thesis
    proof (cases "has \<and> k \<noteq> []")
      case False
      with assms \<open>\<not> (is_binary \<or> _)\<close> chk Some have "w' = w" "r = Inr (relay resp)"
        by (auto simp: answer_def)
      with relayed show ?thesis
        by blast
    next
      case True
      obtain r0 p where g: "get_next_key S (disable_key S k t (pool w)) = (r0, p)"
        by force
      note rr = retry_request_cases [OF g, of call]
      from assms \<open>\<not> (is_binary \<or> _)\<close> chk Some True
      have ans: "(r, w') = (case retry_request S call k t w of
                             (Inl e, w1) \<Rightarrow> (Inl (outer_handler e), w1)
                           | (Inr resp2, w1) \<Rightarrow> (Inr (relay resp2), w1))"
        by (auto simp: answer_def)
      show ?thesis
      proof (cases r0)
        case (Inl e)
        with ans rr have "w' = w\<lparr>pool := p, trace := trace w @ [Disable k t, Acquire r0]\<rparr>"
          "r = Inl (outer_handler e)"
          by auto
        with exhausted True Some Inl show ?thesis
          by blast
      next
        case (Inr nk)
        show ?thesis
        proof (cases "key_truthy nk")
          case False
          with ans rr Inr have "w' = w\<lparr>pool := p, trace := trace w @ [Disable k t, Acquire r0]\<rparr>"
            "r = Inl (outer_handler (HTTPException 429 ''Rate limited and no available API keys''))"
            by auto
          with exhausted True Some Inr False show ?thesis
            by blast
        next
          case kt: True
          then obtain s where s: "nk = Some s" "s \<noteq> []"
            by (auto dest: key_truthy_Some)
          with ans rr Inr kt
          have "w' = w\<lparr>pool := p, trace := trace w @ [Disable k t, Acquire (Inr (Some s)),
                     HttpCall (call\<lparr>call_headers :=
                        dict_set ''Authorization'' (''Bearer '' @ s) (call_headers call)\<rparr>)]\<rparr>"
            "r = (case http_request S (trace w @ [Disable k t, Acquire (Inr (Some s))])
                        (call\<lparr>call_headers :=
                            dict_set ''Authorization'' (''Bearer '' @ s) (call_headers call)\<rparr>) of
                   Inl e \<Rightarrow> Inl (outer_handler e)
                 | Inr resp2 \<Rightarrow> Inr (relay resp2))"
            by (auto split: sum.splits)
          with retried True Some s show ?thesis
            by blast
        qed
      qed
    qed
  qed
qed

text \<open>One attempt: what it adds to the record.\<close>

lemma chat_attempt_failed:
  assumes "chat_attempt S C request rb api_key is_stream w = (Inl e, w1)"
  shows "pool w1 = pool w \<and>
         (case rb of
            None \<Rightarrow> trace w1 = trace w \<and> e = none_copy_error
          | Some body \<Rightarrow>
              trace w1 = trace w @ [ChatCall (build_chat_call request body api_key is_stream)] \<and>
              chat_create S (trace w) (build_chat_call request body api_key is_stream) = Inl e)"
  using assms
  by (auto simp: chat_attempt_def do_chat_def split: option.splits sum.splits prod.splits if_splits)

lemma chat_attempt_answered:
  assumes "chat_attempt S C request rb api_key is_stream w = (Inr resp, w1)"
  shows "\<exists>body res. rb = Some body \<and>
           chat_create S (trace w) (build_chat_call request body api_key is_stream) = Inr res \<and>
           (if is_stream
            then resp = \<lparr>content = Streamed (fst (stream_response S C api_key res
                              (w\<lparr>trace := trace w @ [ChatCall (build_chat_call request body api_key True)]\<rparr>))),
                          status_code = 200, resp_headers = sse_headers,
                          media_type = Some ''text/event-stream''\<rparr> \<and>
                 w1 = snd (stream_response S C api_key res
                              (w\<lparr>trace := trace w @ [ChatCall (build_chat_call request body api_key True)]\<rparr>))
            else resp = \<lparr>content = Buffered (json_dumps C (completion_dump res)),
                          status_code = 200, resp_headers = [],
                          media_type = Some ''application/json''\<rparr> \<and>
                 w1 = w\<lparr>trace := trace w @ [ChatCall (build_chat_call request body api_key False)]\<rparr>)"
  using assms
  by (auto simp: chat_attempt_def do_chat_def split: option.splits sum.splits prod.splits if_splits)

lemma stream_response_trace:
  "\<exists>new. trace (snd (stream_response S C api_key res w)) = trace w @ new \<and>
         (api_key = [] \<longrightarrow> pool (snd (stream_response S C api_key res w)) = pool w) \<and>
         chat_calls new = [] \<and> http_calls new = [] \<and> acquisitions new = [] \<and>
         disablings new =
           (case stream_error res of
              None \<Rightarrow> []
            | Some e \<Rightarrow> if rate_limit_text e \<and> api_key \<noteq> [] then [(api_key, None)] else [])"
  by (auto simp: stream_response_def disable_def Let_def split: option.splits)


lemma same_call_but_key_build [simp]:
  "same_call_but_key request (Some body) is_stream (build_chat_call request body k is_stream)"
  by (simp add: same_call_but_key_def build_chat_call_def)

lemma handle_record:
  assumes "handle_chat_completions fuel S C request rb api_key is_stream w = Some (r, w')"
  shows "\<exists>new. trace w' = trace w @ new \<and> http_calls new = [] \<and>
           list_all (same_call_but_key request rb is_stream) (chat_calls new) \<and>
           length (chat_calls new) \<le> length (disablings new) + 1 \<and>
           list_all (\<lambda>(k, t). t = None) (disablings new) \<and>
           (api_key = [] \<longrightarrow> acquisitions new = [] \<and> disablings new = [] \<and> pool w' = pool w)"
  using assms
proof (induction fuel arbitrary: api_key w)
  case 0
  then show ?case by simp
next
  case (Suc n)
  obtain x w1 where att: "chat_attempt S C request rb api_key is_stream w = (x, w1)"
    by force
  show ?case
  proof (cases x)
    case (Inr resp)
    with att Suc.prems have res: "w' = w1"
      by simp
    from chat_attempt_answered [OF att [unfolded Inr]]
    obtain body res where rb: "rb = Some body"
      and w1: "if is_stream
               then w1 = snd (stream_response S C api_key res
                       (w\<lparr>trace := trace w @ [ChatCall (build_chat_call request body api_key True)]\<rparr>))
               else w1 = w\<lparr>trace := trace w @ [ChatCall (build_chat_call request body api_key False)]\<rparr>"
      by (cases is_stream) auto
    show ?thesis
    proof (cases is_stream)
      case True
      from stream_response_trace
        [of S C api_key res "w\<lparr>trace := trace w @ [ChatCall (build_chat_call request body api_key True)]\<rparr>"]
      obtain new where n: "trace w1 = (trace w @ [ChatCall (build_chat_call request body api_key True)]) @ new"
        and p: "api_key = [] \<longrightarrow> pool w1 = pool w"
        and q: "chat_calls new = []" "http_calls new = []" "acquisitions new = []"
        and d: "disablings new =
           (case stream_error res of
              None \<Rightarrow> []
            | Some e \<Rightarrow> if rate_limit_text e \<and> api_key \<noteq> [] then [(api_key, None)] else [])"
        using w1 True by auto
      have "trace w' = trace w @ (ChatCall (build_chat_call request body api_key True) # new)"
        using n res by simp
      moreover have "list_all (\<lambda>(k, t). t = None) (disablings new)"
        using d by (auto split: option.splits)
      moreover have "api_key = [] \<longrightarrow> disablings new = []"
        using d by (auto split: option.splits)
      ultimately show ?thesis
        using p q rb True res
        by (intro exI [of _ "ChatCall (build_chat_call request body api_key True) # new"]) simp
    next
      case False
      with w1 res rb show ?thesis
        by (intro exI [of _ "[ChatCall (build_chat_call request body api_key False)]"]) simp
    qed
  next
    case (Inl e)
    from chat_attempt_failed [OF att [unfolded Inl]]
    have p1: "pool w1 = pool w"
      and t1: "case rb of
            None \<Rightarrow> trace w1 = trace w
          | Some body \<Rightarrow>
              trace w1 = trace w @ [ChatCall (build_chat_call request body api_key is_stream)]"
      by (auto split: option.splits)
    then obtain new1 where n1: "trace w1 = trace w @ new1" "http_calls new1 = []"
      "list_all (same_call_but_key request rb is_stream) (chat_calls new1)"
      "length (chat_calls new1) \<le> 1" "disablings new1 = []" "acquisitions new1 = []"
      by (cases rb) auto
    show ?thesis
    proof (cases "rate_limit_text e \<and> api_key \<noteq> []")
      case False
      with att Inl Suc.prems have "w' = w1"
        by auto
      with n1 p1 show ?thesis
        by (intro exI [of _ new1]) simp
    next
      case True
      obtain r0 p0 where g: "get_next_key S (disable_key S api_key None (pool w1)) = (r0, p0)"
        by force
      define w2 where "w2 = w1\<lparr>pool := p0, trace := trace w1 @ [Disable api_key None, Acquire r0]\<rparr>"
      have acq: "acquire S (disable S api_key None w1) = (r0, w2)"
        by (simp add: acquire_def disable_def g w2_def)
      show ?thesis
      proof (cases "\<exists>k. r0 = Inr (Some k) \<and> k \<noteq> []")
        case True
        then obtain k where k: "r0 = Inr (Some k)" "k \<noteq> []"
          by auto
        from Suc.prems att Inl \<open>rate_limit_text e \<and> api_key \<noteq> []\<close> acq k
        have "handle_chat_completions n S C request rb k is_stream w2 = Some (r, w')"
          by simp
        from Suc.IH [OF this]
        obtain new2 where n2: "trace w' = trace w2 @ new2" "http_calls new2 = []"
          "list_all (same_call_but_key request rb is_stream) (chat_calls new2)"
          "length (chat_calls new2) \<le> length (disablings new2) + 1"
          "list_all (\<lambda>(k, t). t = None) (disablings new2)"
          by auto
        have "trace w' = trace w @ (new1 @ [Disable api_key None, Acquire r0] @ new2)"
          using n1 n2 by (simp add: w2_def)
        with n1 n2 \<open>rate_limit_text e \<and> api_key \<noteq> []\<close> show ?thesis
          by (intro exI [of _ "new1 @ [Disable api_key None, Acquire r0] @ new2"]) simp
      next
        case False
        with Suc.prems att Inl \<open>rate_limit_text e \<and> api_key \<noteq> []\<close> acq
        have "w' = w2"
          by (auto split: sum.splits option.splits if_splits)
        then have "trace w' = trace w @ (new1 @ [Disable api_key None, Acquire r0])"
          using n1 by (simp add: w2_def)
        with n1 \<open>rate_limit_text e \<and> api_key \<noteq> []\<close> show ?thesis
          by (intro exI [of _ "new1 @ [Disable api_key None, Acquire r0]"]) simp
      qed
    qed
  qed
qed



lemma prepare_call_record:
  assumes "prepare_call S C request path is_public w = (x, w1)"
  shows "\<exists>new. trace w1 = trace w @ new \<and> http_calls new = [] \<and> chat_calls new = [] \<and>
           disablings new = [] \<and> (is_public \<longrightarrow> w1 = w \<and> new = []) \<and>
           (\<forall>call. x = Inr call \<longrightarrow>
              (if is_public then call_headers call = public_headers request
               else \<exists>k. fst (get_next_key S (pool w)) = Inr k \<and>
                        call_headers call = keyed_headers request k))"
proof (cases is_public)
  case True
  with assms show ?thesis
    by (auto simp: prepare_call_public)
next
  case False
  obtain r p where g: "get_next_key S (pool w) = (r, p)"
    by force
  from assms False prepare_call_keyed [OF g, of C request path]
  have "w1 = w\<lparr>pool := p, trace := trace w @ [Acquire r]\<rparr>"
    and "x = (case r of
        Inl e \<Rightarrow> Inl e
      | Inr k \<Rightarrow> Inr \<lparr>call_method = req_method request, call_url = build_url C request path,
                      call_headers = keyed_headers request k, call_content = req_body request\<rparr>)"
    by auto
  with False g show ?thesis
    by (intro exI [of _ "[Acquire r]"]) (auto split: sum.splits)
qed

lemma raw_record:
  assumes "proxy_with_httpx S C request path is_public is_binary is_stream w = (r, w')"
  obtains (refused) e w1 where
      "prepare_call S C request path is_public w = (Inl e, w1)" "w' = w1" "r = Inl (outer_handler e)"
  | (once) call w1 where
      "prepare_call S C request path is_public w = (Inr call, w1)"
      "w' = w1\<lparr>trace := trace w1 @ [HttpCall call]\<rparr>"
  | (exhausted) call w1 k t r0 p e where
      "prepare_call S C request path is_public w = (Inr call, w1)"
      "k \<noteq> []" "current_key_of (call_headers call) = Some k"
      "w' = w1\<lparr>pool := p, trace := trace w1 @ [HttpCall call, Disable k t, Acquire r0]\<rparr>"
      "r = Inl (outer_handler e)"
      "r0 = Inl e \<or> (e = HTTPException 429 ''Rate limited and no available API keys'' \<and>
                       (\<exists>nk. r0 = Inr nk \<and> \<not> key_truthy nk))"
  | (retried) call w1 k t s p where
      "prepare_call S C request path is_public w = (Inr call, w1)"
      "k \<noteq> []" "s \<noteq> []" "current_key_of (call_headers call) = Some k"
      "w' = w1\<lparr>pool := p, trace := trace w1 @ [HttpCall call, Disable k t, Acquire (Inr (Some s)),
                     HttpCall (call\<lparr>call_headers :=
                        dict_set ''Authorization'' (''Bearer '' @ s) (call_headers call)\<rparr>)]\<rparr>"
      "r = (case http_request S (trace w1 @ [HttpCall call, Disable k t, Acquire (Inr (Some s))])
                        (call\<lparr>call_headers :=
                            dict_set ''Authorization'' (''Bearer '' @ s) (call_headers call)\<rparr>) of
                   Inl e \<Rightarrow> Inl (outer_handler e)
                 | Inr resp2 \<Rightarrow> Inr (relay resp2))"
proof -
  obtain x w1 where prep: "prepare_call S C request path is_public w = (x, w1)"
    by force
  show ?thesis
  proof (cases x)
    case (Inl e)
    with assms prep refused show ?thesis
      by (auto simp: proxy_with_httpx_def)
  next
    case (Inr call)
    obtain y w2 where fr: "first_request S C path call w1 = (y, w2)"
      by force
    with first_request_world [of S C path call w1]
    have w2: "w2 = w1\<lparr>trace := trace w1 @ [HttpCall call]\<rparr>"
      by simp
    show ?thesis
    proof (cases "\<exists>resp. y = Inr (Inr resp)")
      case False
      with assms prep Inr fr have "w' = w2"
        by (auto simp: proxy_with_httpx_def split: sum.splits)
      with once prep Inr w2 show ?thesis
        by blast
    next
      case True
      then obtain resp where y: "y = Inr (Inr resp)"
        by blast
      with assms prep Inr fr have ans: "answer S C is_binary is_stream call resp w2 = (r, w')"
        by (simp add: proxy_with_httpx_def)
      from ans show ?thesis
      proof (cases rule: answer_record)
        case (relayed x)
        with once prep Inr w2 show ?thesis
          by blast
      next
        case (exhausted k t r0 p e)
        from exhausted(3) have "w' = w1\<lparr>pool := p, trace := trace w1 @ [HttpCall call, Disable k t, Acquire r0]\<rparr>"
          by (simp add: w2)
        then show ?thesis
          by (rule that(3) [OF prep [unfolded Inr] exhausted(1,2) _ exhausted(4,5)])
      next
        case (retried k t s p)
        from retried(4) have "w' = w1\<lparr>pool := p, trace := trace w1 @ [HttpCall call, Disable k t, Acquire (Inr (Some s)),
                     HttpCall (call\<lparr>call_headers :=
                        dict_set ''Authorization'' (''Bearer '' @ s) (call_headers call)\<rparr>)]\<rparr>"
          by (simp add: w2)
        moreover from retried(5) have "r = (case http_request S (trace w1 @ [HttpCall call, Disable k t, Acquire (Inr (Some s))])
                        (call\<lparr>call_headers :=
                            dict_set ''Authorization'' (''Bearer '' @ s) (call_headers call)\<rparr>) of
                   Inl e \<Rightarrow> Inl (outer_handler e)
                 | Inr resp2 \<Rightarrow> Inr (relay resp2))"
          by (simp add: w2)
        ultimately show ?thesis
          using that(4) [OF prep [unfolded Inr] retried(1,2,3)] by blast
      qed
    qed
  qed
qed



lemma none_copy_not_rate_limit: "\<not> rate_limit_text none_copy_error"
  by code_simp

lemma handle_returns:
  assumes quiet: "\<forall>hist call e. m \<le> length (chat_calls hist) \<longrightarrow>
                    chat_create S hist call = Inl e \<longrightarrow> \<not> rate_limit_text e"
    and fuel: "0 < fuel" "m < length (chat_calls (trace w)) + fuel"
  shows "handle_chat_completions fuel S C request rb api_key is_stream w \<noteq> None"
  using fuel
proof (induction fuel arbitrary: api_key w)
  case 0
  then show ?case
    by simp
next
  case (Suc n)
  obtain x w1 where att: "chat_attempt S C request rb api_key is_stream w = (x, w1)"
    by force
  show ?case
  proof (cases x)
    case (Inr resp)
    with att show ?thesis
      by simp
  next
    case (Inl e)
    note f = chat_attempt_failed [OF att [unfolded Inl]]
    show ?thesis
    proof (cases "rate_limit_text e \<and> api_key \<noteq> []")
      case False
      with att Inl show ?thesis
        by auto
    next
      case True
      with f none_copy_not_rate_limit obtain body where rb: "rb = Some body"
        by (cases rb) auto
      with f have t1: "trace w1 = trace w @ [ChatCall (build_chat_call request body api_key is_stream)]"
        and up: "chat_create S (trace w) (build_chat_call request body api_key is_stream) = Inl e"
        by auto
      from quiet up True have less: "length (chat_calls (trace w)) < m"
        by (meson not_le)
      obtain r0 p0 where g: "get_next_key S (disable_key S api_key None (pool w1)) = (r0, p0)"
        by force
      define w2 where "w2 = w1\<lparr>pool := p0, trace := trace w1 @ [Disable api_key None, Acquire r0]\<rparr>"
      have acq: "acquire S (disable S api_key None w1) = (r0, w2)"
        by (simp add: acquire_def disable_def g w2_def)
      have "m < length (chat_calls (trace w2)) + n"
        using Suc.prems t1 by (simp add: w2_def)
      moreover from this less t1 have "0 < n"
        by (simp add: w2_def)
      ultimately
      have "handle_chat_completions n S C request rb k is_stream w2 \<noteq> None" for k
        using Suc.IH by simp
      with att Inl True acq show ?thesis
        by (auto split: sum.splits option.splits)
    qed
  qed
qed


lemma raw_first_call:
  assumes prep: "prepare_call S C request path is_public w = (Inr call, w1)"
  shows "\<exists>rest. http_calls (added w (snd (proxy_with_httpx S C request path is_public
                    is_binary is_stream w))) = call # rest"
proof -
  obtain r w' where run: "proxy_with_httpx S C request path is_public is_binary is_stream w = (r, w')"
    by force
  from prepare_call_record [OF prep]
  obtain new1 where n1: "trace w1 = trace w @ new1" "http_calls new1 = []"
    by auto
  from run have "\<exists>rest. http_calls (added w w') = call # rest"
  proof (cases rule: raw_record)
    case (refused e w1')
    with prep show ?thesis
      by simp
  next
    case (once call' w1')
    with prep n1 have "trace w' = trace w @ (new1 @ [HttpCall call])"
      by simp
    with n1 show ?thesis
      by simp
  next
    case (exhausted call' w1' k t r0 p e)
    with prep n1 have "trace w' = trace w @ (new1 @ [HttpCall call, Disable k t, Acquire r0])"
      by simp
    with n1 show ?thesis
      by simp
  next
    case (retried call' w1' k t s p)
    with prep n1 have "trace w' = trace w @ (new1 @ [HttpCall call, Disable k t, Acquire (Inr (Some s)),
        HttpCall (call\<lparr>call_headers := dict_set ''Authorization'' (''Bearer '' @ s) (call_headers call)\<rparr>)])"
      by simp
    with n1 show ?thesis
      by simp
  qed
  with run show ?thesis
    by simp
qed

lemma raw_first_call_public:
  "\<exists>c rest. http_calls (added w (snd (proxy_with_httpx S C request path True is_binary
                 is_stream w))) = c # rest \<and> call_headers c = public_headers request"
  using raw_first_call [OF prepare_call_public, where S = S and C = C and request = request
      and path = path and w = w and is_binary = is_binary and is_stream = is_stream]
  by auto

lemma raw_first_call_keyed:
  assumes "fst (get_next_key S (pool w)) = Inr key"
  shows "\<exists>c rest. http_calls (added w (snd (proxy_with_httpx S C request path False is_binary
                 is_stream w))) = c # rest \<and> call_headers c = keyed_headers request key"
proof -
  obtain p where g: "get_next_key S (pool w) = (Inr key, p)"
    using assms by (cases "get_next_key S (pool w)") auto
  from prepare_call_keyed [OF g, of C request path]
  have "prepare_call S C request path False w =
     (Inr \<lparr>call_method = req_method request, call_url = build_url C request path,
                      call_headers = keyed_headers request key, call_content = req_body request\<rparr>,
      w\<lparr>pool := p, trace := trace w @ [Acquire (Inr key)]\<rparr>)"
    by simp
  from raw_first_call [OF this, where is_binary = is_binary and is_stream = is_stream]
  show ?thesis
    by auto
qed

text \<open>A rate-limit failure with a usable replacement key: the handler runs again with it.\<close>

lemma handle_step:
  assumes att: "chat_attempt S C request rb api_key is_stream w = (Inl e, w1)"
    and rl: "rate_limit_text e" "api_key \<noteq> []"
    and acq: "acquire S (disable S api_key None w1) = (Inr (Some k), w2)"
    and k: "k \<noteq> []"
  shows "handle_chat_completions (Suc n) S C request rb api_key is_stream w =
           handle_chat_completions n S C request rb k is_stream w2"
    and "\<exists>body rest. rb = Some body \<and>
           trace (snd (chat_attempt S C request rb k is_stream w2)) =
             trace w2 @ ChatCall (build_chat_call request body k is_stream) # rest"
proof -
  show "handle_chat_completions (Suc n) S C request rb api_key is_stream w =
           handle_chat_completions n S C request rb k is_stream w2"
    using att rl acq k by simp
  from chat_attempt_failed [OF att] rl none_copy_not_rate_limit
  obtain body where rb: "rb = Some body"
    by (cases rb) auto
  obtain x w3 where nxt: "chat_attempt S C request rb k is_stream w2 = (x, w3)"
    by force
  let ?c = "ChatCall (build_chat_call request body k is_stream)"
  have "\<exists>new. trace w3 = (trace w2 @ [?c]) @ new"
  proof (cases x)
    case (Inl e')
    from chat_attempt_failed [OF nxt [unfolded Inl]] rb show ?thesis
      by simp
  next
    case (Inr resp)
    from chat_attempt_answered [OF nxt [unfolded Inr]] rb
    obtain res where w3: "if is_stream
            then w3 = snd (stream_response S C k res
                              (w2\<lparr>trace := trace w2 @ [ChatCall (build_chat_call request body k True)]\<rparr>))
            else w3 = w2\<lparr>trace := trace w2 @ [ChatCall (build_chat_call request body k False)]\<rparr>"
      by (cases is_stream) auto
    show ?thesis
    proof (cases is_stream)
      case True
      with w3 stream_response_trace [of S C k res
          "w2\<lparr>trace := trace w2 @ [ChatCall (build_chat_call request body k True)]\<rparr>"]
      show ?thesis
        by auto
    next
      case False
      with w3 show ?thesis
        by simp
    qed
  qed
  then obtain new where new: "trace w3 = (trace w2 @ [?c]) @ new"
    by blast
  with nxt rb show "\<exists>body rest. rb = Some body \<and>
           trace (snd (chat_attempt S C request rb k is_stream w2)) =
             trace w2 @ ChatCall (build_chat_call request body k is_stream) # rest"
    by simp
qed

text \<open>The calls of a run are one more than the usable keys it acquired.\<close>

lemma handle_exact:
  assumes "handle_chat_completions fuel S C request (Some body) api_key is_stream w = Some (r, w')"
  shows "\<exists>new. trace w' = trace w @ new \<and>
           length (chat_calls new) = Suc (length (filter usable (acquisitions new)))"
  using assms
proof (induction fuel arbitrary: api_key w)
  case 0
  then show ?case by simp
next
  case (Suc n)
  let ?rb = "Some body"
  let ?c = "ChatCall (build_chat_call request body api_key is_stream)"
  obtain x w1 where att: "chat_attempt S C request ?rb api_key is_stream w = (x, w1)"
    by force
  show ?case
  proof (cases x)
    case (Inr resp)
    with att Suc.prems have res: "w' = w1"
      by simp
    from chat_attempt_answered [OF att [unfolded Inr]]
    obtain res where w1: "if is_stream
               then w1 = snd (stream_response S C api_key res
                       (w\<lparr>trace := trace w @ [ChatCall (build_chat_call request body api_key True)]\<rparr>))
               else w1 = w\<lparr>trace := trace w @ [ChatCall (build_chat_call request body api_key False)]\<rparr>"
      by (cases is_stream) auto
    show ?thesis
    proof (cases is_stream)
      case True
      from stream_response_trace
        [of S C api_key res "w\<lparr>trace := trace w @ [ChatCall (build_chat_call request body api_key True)]\<rparr>"]
      obtain new where n: "trace w1 = (trace w @ [ChatCall (build_chat_call request body api_key True)]) @ new"
        and q: "chat_calls new = []" "acquisitions new = []"
        using w1 True by auto
      have "trace w' = trace w @ (ChatCall (build_chat_call request body api_key True) # new)"
        using n res by simp
      with q show ?thesis
        by (intro exI [of _ "ChatCall (build_chat_call request body api_key True) # new"]) simp
    next
      case False
      with w1 res show ?thesis
        by (intro exI [of _ "[ChatCall (build_chat_call request body api_key False)]"]) simp
    qed
  next
    case (Inl e)
    from chat_attempt_failed [OF att [unfolded Inl]]
    have t1: "trace w1 = trace w @ [?c]"
      by simp
    show ?thesis
    proof (cases "rate_limit_text e \<and> api_key \<noteq> []")
      case False
      with att Inl Suc.prems have "w' = w1"
        by auto
      with t1 show ?thesis
        by (intro exI [of _ "[?c]"]) simp
    next
      case True
      obtain r0 p0 where g: "get_next_key S (disable_key S api_key None (pool w1)) = (r0, p0)"
        by force
      define w2 where "w2 = w1\<lparr>pool := p0, trace := trace w1 @ [Disable api_key None, Acquire r0]\<rparr>"
      have acq: "acquire S (disable S api_key None w1) = (r0, w2)"
        by (simp add: acquire_def disable_def g w2_def)
      show ?thesis
      proof (cases "usable r0")
        case u: True
        then obtain k where k: "r0 = Inr (Some k)" "k \<noteq> []"
          by (cases r0 rule: usable.cases) auto
        from Suc.prems att Inl True acq k
        have "handle_chat_completions n S C request ?rb k is_stream w2 = Some (r, w')"
          by simp
        from Suc.IH [OF this]
        obtain new2 where n2: "trace w' = trace w2 @ new2"
          "length (chat_calls new2) = Suc (length (filter usable (acquisitions new2)))"
          by auto
        have "trace w' = trace w @ ([?c, Disable api_key None, Acquire r0] @ new2)"
          using t1 n2 by (simp add: w2_def)
        with n2 u show ?thesis
          by (intro exI [of _ "[?c, Disable api_key None, Acquire r0] @ new2"]) simp
      next
        case nu: False
        with Suc.prems att Inl True acq have "w' = w2"
          by (cases r0 rule: usable.cases) (auto split: if_splits)
        then have "trace w' = trace w @ [?c, Disable api_key None, Acquire r0]"
          using t1 by (simp add: w2_def)
        with nu show ?thesis
          by (intro exI [of _ "[?c, Disable api_key None, Acquire r0]"]) simp
      qed
    qed
  qed
qed

text \<open>
  With an upstream that answers exactly the first \<open>m\<close> calls with rate-limit errors and a
  key manager that always has a key, the handler makes \<open>m + 1\<close> calls.
\<close>

lemma handle_rounds:
  assumes limited: "\<forall>hist call. length (chat_calls hist) < m \<longrightarrow>
                      (\<exists>e. chat_create S hist call = Inl e \<and> rate_limit_text e)"
    and quiet: "\<forall>hist call e. m \<le> length (chat_calls hist) \<longrightarrow>
                  chat_create S hist call = Inl e \<longrightarrow> \<not> rate_limit_text e"
    and keys: "\<forall>p. \<exists>k p'. get_next_key S p = (Inr (Some k), p') \<and> k \<noteq> []"
    and key: "api_key \<noteq> []"
    and start: "length (chat_calls (trace w)) \<le> m"
    and fuel: "m < length (chat_calls (trace w)) + fuel"
  shows "\<exists>r w'. handle_chat_completions fuel S C request (Some body) api_key is_stream w = Some (r, w') \<and>
           length (chat_calls (trace w')) = Suc m"
  using key start fuel
proof (induction fuel arbitrary: api_key w)
  case 0
  then show ?case by simp
next
  case (Suc n)
  let ?rb = "Some body"
  let ?call = "build_chat_call request body api_key is_stream"
  obtain x w1 where att: "chat_attempt S C request ?rb api_key is_stream w = (x, w1)"
    by force
  show ?case
  proof (cases "length (chat_calls (trace w)) < m")
    case True
    with limited obtain e where up: "chat_create S (trace w) ?call = Inl e" and rl: "rate_limit_text e"
      by blast
    then have att': "chat_attempt S C request ?rb api_key is_stream w =
                       (Inl e, w\<lparr>trace := trace w @ [ChatCall ?call]\<rparr>)"
      by (simp add: chat_attempt_def do_chat_def)
    let ?w1 = "w\<lparr>trace := trace w @ [ChatCall ?call]\<rparr>"
    from keys obtain k p' where g: "get_next_key S (disable_key S api_key None (pool w)) = (Inr (Some k), p')"
      and k: "k \<noteq> []"
      by blast
    define w2 where "w2 = ?w1\<lparr>pool := p', trace := trace ?w1 @ [Disable api_key None, Acquire (Inr (Some k))]\<rparr>"
    have acq: "acquire S (disable S api_key None ?w1) = (Inr (Some k), w2)"
      by (simp add: acquire_def disable_def g w2_def)
    have step: "handle_chat_completions (Suc n) S C request ?rb api_key is_stream w =
                handle_chat_completions n S C request ?rb k is_stream w2"
      using att' rl Suc.prems(1) acq k by simp
    have cnt: "length (chat_calls (trace w2)) = Suc (length (chat_calls (trace w)))"
      by (simp add: w2_def)
    with True Suc.prems have "length (chat_calls (trace w2)) \<le> m" "m < length (chat_calls (trace w2)) + n"
      by simp_all
    from Suc.IH [OF k this] step show ?thesis
      by simp
  next
    case False
    with Suc.prems have eq: "length (chat_calls (trace w)) = m"
      by simp
    show ?thesis
    proof (cases x)
      case (Inr resp)
      with att have run: "handle_chat_completions (Suc n) S C request ?rb api_key is_stream w = Some (Inr resp, w1)"
        by simp
      from handle_exact [OF run] handle_record [OF run]
      obtain new where "trace w1 = trace w @ new" "length (chat_calls new) \<le> length (disablings new) + 1"
        by auto
      from chat_attempt_answered [OF att [unfolded Inr]]
      obtain res where w1: "if is_stream
               then w1 = snd (stream_response S C api_key res
                       (w\<lparr>trace := trace w @ [ChatCall (build_chat_call request body api_key True)]\<rparr>))
               else w1 = w\<lparr>trace := trace w @ [ChatCall (build_chat_call request body api_key False)]\<rparr>"
        by (cases is_stream) auto
      have "length (chat_calls (trace w1)) = Suc m"
      proof (cases is_stream)
        case True
        from stream_response_trace
          [of S C api_key res "w\<lparr>trace := trace w @ [ChatCall (build_chat_call request body api_key True)]\<rparr>"]
        obtain new where "trace w1 = (trace w @ [ChatCall (build_chat_call request body api_key True)]) @ new"
          "chat_calls new = []"
          using w1 True by auto
        with eq show ?thesis
          by simp
      next
        case False
        with w1 eq show ?thesis
          by simp
      qed
      with run show ?thesis
        by simp
    next
      case (Inl e)
      from chat_attempt_failed [OF att [unfolded Inl]]
      have t1: "trace w1 = trace w @ [ChatCall ?call]"
        and up: "chat_create S (trace w) ?call = Inl e"
        by simp_all
      from quiet eq up have "\<not> rate_limit_text e"
        by (metis order_refl)
      with att Inl have "handle_chat_completions (Suc n) S C request ?rb api_key is_stream w =
                           Some (Inl (chat_error e), w1)"
        by simp
      with t1 eq show ?thesis
        by simp
    qed
  qed
qed

section \<open>Retries\<close>

text \<open>
  Claim C1, as amended. On the raw path a request makes at most two upstream calls and
  disables at most one key; when it makes two, the second is the first with only the
  \<open>Authorization\<close> entry set to the newly acquired key, it is the last thing the request does,
  and its outcome is the outcome of the request (the response relayed, or the exception
  through the handlers of the outer \<open>try\<close>). On the structured path every call is the call of
  the request with only the key changed, and the calls number at most the disablings plus
  one; the handler returns within the rounds given as soon as the upstream stops answering
  with rate-limit errors after \<open>m\<close> calls and more than \<open>m\<close> calls fit into the rounds.
  But there the handler calls itself: whenever an attempt, the first or a later one, fails
  with a rate-limit error while a key is in use and the acquisition that follows the
  disabling yields a usable key, the handler runs again with that key and calls the
  upstream again. So a run makes exactly one call more than the usable keys it acquired,
  and nothing but the key manager bounds that number: with an upstream that answers its
  first \<open>m\<close> calls with rate-limit errors and a key manager that always has a key, the run
  makes \<open>m + 1\<close> calls.
\<close>

theorem retry_bounds:
  "(case proxy_with_httpx S C request path is_public is_binary is_stream w of
      (r, w') \<Rightarrow>
        length (http_calls (added w w')) \<le> 2 \<and>
        length (disablings (added w w')) \<le> 1 \<and>
        (\<forall>c1 c2. http_calls (added w w') = [c1, c2] \<longrightarrow>
           (\<exists>pre k. k \<noteq> [] \<and> trace w' = pre @ [Acquire (Inr (Some k)), HttpCall c2] \<and>
              c2 = c1\<lparr>call_headers :=
                        dict_set ''Authorization'' (''Bearer '' @ k) (call_headers c1)\<rparr> \<and>
              r = (case http_request S (pre @ [Acquire (Inr (Some k))]) c2 of
                     Inl e \<Rightarrow> Inl (outer_handler e)
                   | Inr resp \<Rightarrow> Inr (relay resp))))) \<and>
   (handle_chat_completions fuel S C request rb api_key is_stream v = Some (r', v') \<longrightarrow>
      list_all (same_call_but_key request rb is_stream) (chat_calls (added v v')) \<and>
      length (chat_calls (added v v')) \<le> length (disablings (added v v')) + 1) \<and>
   ((\<forall>hist call e. m \<le> length (chat_calls hist) \<longrightarrow>
        chat_create S hist call = Inl e \<longrightarrow> \<not> rate_limit_text e) \<and>
    0 < fuel \<and> m < length (chat_calls (trace v)) + fuel \<longrightarrow>
      handle_chat_completions fuel S C request rb api_key is_stream v \<noteq> None) \<and>
   (chat_attempt S C request rb api_key is_stream v = (Inl e, v1) \<and>
    rate_limit_text e \<and> api_key \<noteq> [] \<and>
    acquire S (disable S api_key None v1) = (Inr (Some k), v2) \<and> k \<noteq> [] \<longrightarrow>
      handle_chat_completions (Suc n) S C request rb api_key is_stream v =
        handle_chat_completions n S C request rb k is_stream v2 \<and>
      (\<exists>body rest. rb = Some body \<and>
         trace (snd (chat_attempt S C request rb k is_stream v2)) =
           trace v2 @ ChatCall (build_chat_call request body k is_stream) # rest)) \<and>
   (handle_chat_completions fuel S C request (Some body) api_key is_stream v = Some (r', v') \<longrightarrow>
      length (chat_calls (added v v')) =
        Suc (length (filter usable (acquisitions (added v v'))))) \<and>
   ((\<forall>hist call. length (chat_calls hist) < m \<longrightarrow>
        (\<exists>e. chat_create S hist call = Inl e \<and> rate_limit_text e)) \<and>
    (\<forall>hist call e. m \<le> length (chat_calls hist) \<longrightarrow>
        chat_create S hist call = Inl e \<longrightarrow> \<not> rate_limit_text e) \<and>
    (\<forall>p. \<exists>k p'. get_next_key S p = (Inr (Some k), p') \<and> k \<noteq> []) \<and>
    api_key \<noteq> [] \<and> chat_calls (trace v) = [] \<and> m < fuel \<longrightarrow>
      (\<exists>r w'. handle_chat_completions fuel S C request (Some body) api_key is_stream v =
                 Some (r, w') \<and>
               length (chat_calls (trace w')) = Suc m))"
proof -
  obtain r w' where run: "proxy_with_httpx S C request path is_public is_binary is_stream w = (r, w')"
    by force
  obtain x w1 where prep: "prepare_call S C request path is_public w = (x, w1)"
    by force
  from prepare_call_record [OF prep]
  obtain new1 where n1: "trace w1 = trace w @ new1" "http_calls new1 = []" "disablings new1 = []"
    by auto
  have raw: "length (http_calls (added w w')) \<le> 2 \<and>
        length (disablings (added w w')) \<le> 1 \<and>
        (\<forall>c1 c2. http_calls (added w w') = [c1, c2] \<longrightarrow>
           (\<exists>pre k. k \<noteq> [] \<and> trace w' = pre @ [Acquire (Inr (Some k)), HttpCall c2] \<and>
              c2 = c1\<lparr>call_headers :=
                        dict_set ''Authorization'' (''Bearer '' @ k) (call_headers c1)\<rparr> \<and>
              r = (case http_request S (pre @ [Acquire (Inr (Some k))]) c2 of
                     Inl e \<Rightarrow> Inl (outer_handler e)
                   | Inr resp \<Rightarrow> Inr (relay resp))))"
    using run
  proof (cases rule: raw_record)
    case (refused e w1')
    with prep n1 have "trace w' = trace w @ new1"
      by simp
    with n1 show ?thesis
      by simp
  next
    case (once call w1')
    with prep n1 have "trace w' = trace w @ (new1 @ [HttpCall call])"
      by simp
    with n1 show ?thesis
      by simp
  next
    case (exhausted call w1' k t r0 p e)
    with prep n1 have "trace w' = trace w @ (new1 @ [HttpCall call, Disable k t, Acquire r0])"
      by simp
    with n1 show ?thesis
      by simp
  next
    case (retried call w1' k t s p)
    let ?c2 = "call\<lparr>call_headers := dict_set ''Authorization'' (''Bearer '' @ s) (call_headers call)\<rparr>"
    from retried prep n1
    have tr: "trace w' = trace w @ (new1 @ [HttpCall call, Disable k t, Acquire (Inr (Some s)), HttpCall ?c2])"
      and w1: "w1' = w1"
      by simp_all
    have "trace w' = (trace w1 @ [HttpCall call, Disable k t]) @ [Acquire (Inr (Some s)), HttpCall ?c2]"
      using tr n1 by simp
    moreover have "r = (case http_request S ((trace w1 @ [HttpCall call, Disable k t]) @ [Acquire (Inr (Some s))]) ?c2 of
                     Inl e \<Rightarrow> Inl (outer_handler e)
                   | Inr resp \<Rightarrow> Inr (relay resp))"
      using retried(6) w1 by simp
    ultimately have "\<exists>pre k. k \<noteq> [] \<and> trace w' = pre @ [Acquire (Inr (Some k)), HttpCall ?c2] \<and>
              ?c2 = call\<lparr>call_headers :=
                        dict_set ''Authorization'' (''Bearer '' @ k) (call_headers call)\<rparr> \<and>
              r = (case http_request S (pre @ [Acquire (Inr (Some k))]) ?c2 of
                     Inl e \<Rightarrow> Inl (outer_handler e)
                   | Inr resp \<Rightarrow> Inr (relay resp))"
      using retried(3) by blast
    with tr n1 show ?thesis
      by simp
  qed
  have structured: "list_all (same_call_but_key request rb is_stream) (chat_calls (added v v')) \<and>
      length (chat_calls (added v v')) \<le> length (disablings (added v v')) + 1"
    if "handle_chat_completions fuel S C request rb api_key is_stream v = Some (r', v')"
    using handle_record [OF that] by auto
  have returns: "handle_chat_completions fuel S C request rb api_key is_stream v \<noteq> None"
    if "\<forall>hist call e. m \<le> length (chat_calls hist) \<longrightarrow>
          chat_create S hist call = Inl e \<longrightarrow> \<not> rate_limit_text e"
      and "0 < fuel" and "m < length (chat_calls (trace v)) + fuel"
    using that by (rule handle_returns)
  have step: "handle_chat_completions (Suc n) S C request rb api_key is_stream v =
        handle_chat_completions n S C request rb k is_stream v2 \<and>
      (\<exists>body rest. rb = Some body \<and>
         trace (snd (chat_attempt S C request rb k is_stream v2)) =
           trace v2 @ ChatCall (build_chat_call request body k is_stream) # rest)"
    if "chat_attempt S C request rb api_key is_stream v = (Inl e, v1) \<and>
        rate_limit_text e \<and> api_key \<noteq> [] \<and>
        acquire S (disable S api_key None v1) = (Inr (Some k), v2) \<and> k \<noteq> []"
  proof -
    from that have att: "chat_attempt S C request rb api_key is_stream v = (Inl e, v1)"
      and rl: "rate_limit_text e" "api_key \<noteq> []"
      and acq: "acquire S (disable S api_key None v1) = (Inr (Some k), v2)"
      and k: "k \<noteq> []"
      by simp_all
    from handle_step(1) [OF att rl acq k] handle_step(2) [OF att rl acq k] show ?thesis
      by blast
  qed
  have exact: "length (chat_calls (added v v')) =
        Suc (length (filter usable (acquisitions (added v v'))))"
    if "handle_chat_completions fuel S C request (Some body) api_key is_stream v = Some (r', v')"
    using handle_exact [OF that] by auto
  have rounds: "\<exists>r w'. handle_chat_completions fuel S C request (Some body) api_key is_stream v =
                 Some (r, w') \<and>
               length (chat_calls (trace w')) = Suc m"
    if "(\<forall>hist call. length (chat_calls hist) < m \<longrightarrow>
        (\<exists>e. chat_create S hist call = Inl e \<and> rate_limit_text e)) \<and>
    (\<forall>hist call e. m \<le> length (chat_calls hist) \<longrightarrow>
        chat_create S hist call = Inl e \<longrightarrow> \<not> rate_limit_text e) \<and>
    (\<forall>p. \<exists>k p'. get_next_key S p = (Inr (Some k), p') \<and> k \<noteq> []) \<and>
    api_key \<noteq> [] \<and> chat_calls (trace v) = [] \<and> m < fuel"
  proof -
    from that have "length (chat_calls (trace v)) \<le> m" "m < length (chat_calls (trace v)) + fuel"
      by simp_all
    with that show ?thesis
      by (intro handle_rounds) blast+
  qed
  have c1: "case proxy_with_httpx S C request path is_public is_binary is_stream w of
      (r, w') \<Rightarrow>
        length (http_calls (added w w')) \<le> 2 \<and>
        length (disablings (added w w')) \<le> 1 \<and>
        (\<forall>c1 c2. http_calls (added w w') = [c1, c2] \<longrightarrow>
           (\<exists>pre k. k \<noteq> [] \<and> trace w' = pre @ [Acquire (Inr (Some k)), HttpCall c2] \<and>
              c2 = c1\<lparr>call_headers :=
                        dict_set ''Authorization'' (''Bearer '' @ k) (call_headers c1)\<rparr> \<and>
              r = (case http_request S (pre @ [Acquire (Inr (Some k))]) c2 of
                     Inl e \<Rightarrow> Inl (outer_handler e)
                   | Inr resp \<Rightarrow> Inr (relay resp))))"
    using raw run by simp
  from structured have c2: "handle_chat_completions fuel S C request rb api_key is_stream v = Some (r', v') \<longrightarrow>
      list_all (same_call_but_key request rb is_stream) (chat_calls (added v v')) \<and>
      length (chat_calls (added v v')) \<le> length (disablings (added v v')) + 1"
    by blast
  from returns have c3: "(\<forall>hist call e. m \<le> length (chat_calls hist) \<longrightarrow>
        chat_create S hist call = Inl e \<longrightarrow> \<not> rate_limit_text e) \<and>
    0 < fuel \<and> m < length (chat_calls (trace v)) + fuel \<longrightarrow>
      handle_chat_completions fuel S C request rb api_key is_stream v \<noteq> None"
    by blast
  note c4 = impI [OF step]
  note c5 = impI [OF exact]
  note c6 = impI [OF rounds]
  show ?thesis
    by (rule conjI [OF c1 conjI [OF c2 conjI [OF c3 conjI [OF c4 conjI [OF c5 c6]]]]])
qed

text \<open>
  The claim as stated fails on the structured path: with three keys and an upstream that
  answers the first two calls with a rate-limit error, the request makes three calls and
  disables two keys.
\<close>

theorem retry_repeats_counterexample:
  "run_summary
     (proxy_endpoint 3 (ex_services (chat_limited 2) (http_limited 0)) ex_config
        (ex_request ''POST'' chat_body) ''/chat/completions'' (Some ''Bearer local-key'')
        (ex_world [''A'', ''B'', ''C''] (Inr None)))
   = Some (Some 200, 3, 0, [(''A'', None), (''B'', None)])"
  by code_simp

theorem retry_bounds_witness:
  "length (http_calls (added (ex_world [''A'', ''B''] (Inr None))
      (snd (proxy_with_httpx (ex_services (chat_limited 2) (http_limited 1)) ex_config
              (ex_request ''POST'' chat_body) ''/auth/key'' False False False
              (ex_world [''A'', ''B''] (Inr None)))))) = 2 \<and>
   (\<exists>pre k c1 c2.
      http_calls (added (ex_world [''A'', ''B''] (Inr None))
        (snd (proxy_with_httpx (ex_services (chat_limited 2) (http_limited 1)) ex_config
                (ex_request ''POST'' chat_body) ''/auth/key'' False False False
                (ex_world [''A'', ''B''] (Inr None))))) = [c1, c2] \<and>
      k \<noteq> [] \<and>
      trace (snd (proxy_with_httpx (ex_services (chat_limited 2) (http_limited 1)) ex_config
                (ex_request ''POST'' chat_body) ''/auth/key'' False False False
                (ex_world [''A'', ''B''] (Inr None))))
        = pre @ [Acquire (Inr (Some k)), HttpCall c2] \<and>
      c2 = c1\<lparr>call_headers := dict_set ''Authorization'' (''Bearer '' @ k) (call_headers c1)\<rparr>) \<and>
   handle_chat_completions 3 (ex_services (chat_limited 2) (http_limited 1)) ex_config
      (ex_request ''POST'' chat_body) (Some [(''model'', JStr ''m'')]) ''A'' False
      (ex_world [''A'', ''B'', ''C''] (Inr None)) \<noteq> None \<and>
   list_all (same_call_but_key (ex_request ''POST'' chat_body) (Some [(''model'', JStr ''m'')]) False)
     (chat_calls (added (ex_world [''A'', ''B'', ''C''] (Inr None))
        (snd (the (handle_chat_completions 3 (ex_services (chat_limited 2) (http_limited 1))
                     ex_config (ex_request ''POST'' chat_body) (Some [(''model'', JStr ''m'')])
                     ''A'' False (ex_world [''A'', ''B'', ''C''] (Inr None))))))) \<and>
   length (chat_calls (added (ex_world [''A'', ''B'', ''C''] (Inr None))
        (snd (the (handle_chat_completions 3 (ex_services (chat_limited 2) (http_limited 1))
                     ex_config (ex_request ''POST'' chat_body) (Some [(''model'', JStr ''m'')])
                     ''A'' False (ex_world [''A'', ''B'', ''C''] (Inr None))))))) = 3 \<and>
   chat_attempt (ex_services (chat_limited 2) (http_limited 1)) ex_config
      (ex_request ''POST'' chat_body) (Some [(''model'', JStr ''m'')]) ''A'' False
      (ex_world [''A'', ''B'', ''C''] (Inr None))
     = (Inl (APIError rate_limit_api_error),
        (ex_world [''A'', ''B'', ''C''] (Inr None))
          \<lparr>trace := [ChatCall (build_chat_call (ex_request ''POST'' chat_body)
                                  [(''model'', JStr ''m'')] ''A'' False)]\<rparr>) \<and>
   rate_limit_text (APIError rate_limit_api_error) \<and>
   fst (acquire (ex_services (chat_limited 2) (http_limited 1))
          (disable (ex_services (chat_limited 2) (http_limited 1)) ''A'' None
             ((ex_world [''A'', ''B'', ''C''] (Inr None))
                \<lparr>trace := [ChatCall (build_chat_call (ex_request ''POST'' chat_body)
                                        [(''model'', JStr ''m'')] ''A'' False)]\<rparr>)))
     = Inr (Some ''B'') \<and>
   handle_chat_completions 3 (ex_services (chat_limited 2) (http_limited 1)) ex_config
      (ex_request ''POST'' chat_body) (Some [(''model'', JStr ''m'')]) ''A'' False
      (ex_world [''A'', ''B'', ''C''] (Inr None))
     = handle_chat_completions 2 (ex_services (chat_limited 2) (http_limited 1)) ex_config
         (ex_request ''POST'' chat_body) (Some [(''model'', JStr ''m'')]) ''B'' False
         (snd (acquire (ex_services (chat_limited 2) (http_limited 1))
                 (disable (ex_services (chat_limited 2) (http_limited 1)) ''A'' None
                    ((ex_world [''A'', ''B'', ''C''] (Inr None))
                       \<lparr>trace := [ChatCall (build_chat_call (ex_request ''POST'' chat_body)
                                               [(''model'', JStr ''m'')] ''A'' False)]\<rparr>)))) \<and>
   length (chat_calls (added (ex_world [''A'', ''B'', ''C''] (Inr None))
        (snd (the (handle_chat_completions 3 (ex_services (chat_limited 2) (http_limited 1))
                     ex_config (ex_request ''POST'' chat_body) (Some [(''model'', JStr ''m'')])
                     ''A'' False (ex_world [''A'', ''B'', ''C''] (Inr None)))))))
     = Suc (length (filter usable (acquisitions (added (ex_world [''A'', ''B'', ''C''] (Inr None))
        (snd (the (handle_chat_completions 3 (ex_services (chat_limited 2) (http_limited 1))
                     ex_config (ex_request ''POST'' chat_body) (Some [(''model'', JStr ''m'')])
                     ''A'' False (ex_world [''A'', ''B'', ''C''] (Inr None))))))))) \<and>
   length (chat_calls (trace (snd (the
      (handle_chat_completions 5 (spare_services (chat_limited 4) (http_limited 0)) ex_config
         (ex_request ''POST'' chat_body) (Some [(''model'', JStr ''m'')]) ''A'' False
         \<lparr>pool = 0, trace = []\<rparr>))))) = 5"
proof -
  let ?S = "ex_services (chat_limited 2) (http_limited 1)"
  let ?req = "ex_request ''POST'' chat_body"
  let ?W = "ex_world [''A'', ''B''] (Inr None)"
  let ?V = "ex_world [''A'', ''B'', ''C''] (Inr None)"
  let ?body = "[(''model'', JStr ''m'')]"
  let ?rb = "Some ?body"
  let ?raw = "proxy_with_httpx ?S ex_config ?req ''/auth/key'' False False False ?W"
  let ?hc = "handle_chat_completions 3 ?S ex_config ?req ?rb ''A'' False ?V"
  let ?e = "APIError rate_limit_api_error"
  let ?V1 = "?V\<lparr>trace := [ChatCall (build_chat_call ?req ?body ''A'' False)]\<rparr>"
  let ?V2 = "snd (acquire ?S (disable ?S ''A'' None ?V1))"
  let ?T = "spare_services (chat_limited 4) (http_limited 0)"
  let ?U = "\<lparr>pool = 0::nat, trace = []\<rparr>"
  have two: "length (http_calls (added ?W (snd ?raw))) = 2"
    by code_simp
  then obtain c1 c2 where calls: "http_calls (added ?W (snd ?raw)) = [c1, c2]"
    by (auto simp: length_Suc_conv numeral_2_eq_2)
  have quiet: "\<forall>hist call e. 2 \<le> length (chat_calls hist) \<longrightarrow>
                 chat_create ?S hist call = Inl e \<longrightarrow> \<not> rate_limit_text e"
    by (simp add: ex_services_def chat_limited_def)
  have fuel: "(0::nat) < 3" "2 < length (chat_calls (trace ?V)) + 3"
    by (simp_all add: ex_world_def)
  have three: "length (chat_calls (added ?V (snd (the ?hc)))) = 3"
    by code_simp
  have att: "chat_attempt ?S ex_config ?req ?rb ''A'' False ?V = (Inl ?e, ?V1)"
    by code_simp
  have rl: "rate_limit_text ?e"
    by code_simp
  have key: "fst (acquire ?S (disable ?S ''A'' None ?V1)) = Inr (Some ''B'')"
    by code_simp
  then have acq: "acquire ?S (disable ?S ''A'' None ?V1) = (Inr (Some ''B''), ?V2)"
    by (simp add: prod_eq_iff)
  have returns: "?hc \<noteq> None"
    using retry_bounds [where S = ?S and C = ex_config and request = ?req and fuel = 3
        and rb = ?rb and api_key = "''A''" and is_stream = False and v = ?V and m = 2,
        THEN conjunct2, THEN conjunct2, THEN conjunct1]
      quiet fuel
    by blast
  then obtain r' v' where hc: "?hc = Some (r', v')"
    by auto
  note inst = retry_bounds [where S = ?S and C = ex_config and request = ?req
      and path = "''/auth/key''" and is_public = False and is_binary = False and is_stream = False
      and w = ?W and fuel = 3 and rb = ?rb and api_key = "''A''" and v = ?V
      and r' = r' and v' = v' and m = 2 and e = ?e and ?v1.0 = ?V1 and k = "''B''"
      and ?v2.0 = ?V2 and n = 2 and body = ?body]
  note raw = inst [THEN conjunct1, unfolded case_prod_beta]
  note structured = inst [THEN conjunct2, THEN conjunct1]
  note step = inst [THEN conjunct2, THEN conjunct2, THEN conjunct2, THEN conjunct1]
  note exact = inst [THEN conjunct2, THEN conjunct2, THEN conjunct2, THEN conjunct2, THEN conjunct1]
  from structured hc have same: "list_all (same_call_but_key ?req ?rb False) (chat_calls (added ?V (snd (the ?hc))))"
    by simp
  from raw calls
  have "\<exists>pre k. k \<noteq> [] \<and> trace (snd ?raw) = pre @ [Acquire (Inr (Some k)), HttpCall c2] \<and>
          c2 = c1\<lparr>call_headers := dict_set ''Authorization'' (''Bearer '' @ k) (call_headers c1)\<rparr>"
    by blast
  with calls have rawpart: "\<exists>pre k c1 c2. http_calls (added ?W (snd ?raw)) = [c1, c2] \<and> k \<noteq> [] \<and>
      trace (snd ?raw) = pre @ [Acquire (Inr (Some k)), HttpCall c2] \<and>
      c2 = c1\<lparr>call_headers := dict_set ''Authorization'' (''Bearer '' @ k) (call_headers c1)\<rparr>"
    by blast
  from step att rl acq
  have "handle_chat_completions (Suc 2) ?S ex_config ?req ?rb ''A'' False ?V =
          handle_chat_completions 2 ?S ex_config ?req ?rb ''B'' False ?V2"
    by simp
  then have again: "?hc = handle_chat_completions 2 ?S ex_config ?req ?rb ''B'' False ?V2"
    by (simp add: eval_nat_numeral)
  from exact hc
  have count: "length (chat_calls (added ?V (snd (the ?hc)))) =
                 Suc (length (filter usable (acquisitions (added ?V (snd (the ?hc))))))"
    by simp
  have limited: "\<forall>hist call. length (chat_calls hist) < 4 \<longrightarrow>
                   (\<exists>e. chat_create ?T hist call = Inl e \<and> rate_limit_text e)"
    using rl by (simp add: spare_services_def chat_limited_def)
  have quiet4: "\<forall>hist call e. 4 \<le> length (chat_calls hist) \<longrightarrow>
                 chat_create ?T hist call = Inl e \<longrightarrow> \<not> rate_limit_text e"
    by (simp add: spare_services_def chat_limited_def)
  have keys: "\<forall>p. \<exists>k p'. get_next_key ?T p = (Inr (Some k), p') \<and> k \<noteq> []"
    by (simp add: spare_services_def)
  have start: "''A'' \<noteq> []" "chat_calls (trace ?U) = []" "(4::nat) < 5"
    by simp_all
  from retry_bounds [where S = ?T and C = ex_config and request = ?req and fuel = 5
        and api_key = "''A''" and is_stream = False and v = ?U and m = 4 and body = ?body,
        THEN conjunct2, THEN conjunct2, THEN conjunct2, THEN conjunct2, THEN conjunct2]
    limited quiet4 keys start
  obtain r w' where "handle_chat_completions 5 ?T ex_config ?req ?rb ''A'' False ?U = Some (r, w')"
    "length (chat_calls (trace w')) = Suc 4"
    by blast
  then have five: "length (chat_calls (trace (snd (the
      (handle_chat_completions 5 ?T ex_config ?req ?rb ''A'' False ?U))))) = 5"
    by simp
  from two rawpart returns same three att rl key again count five show ?thesis
    by blast
qed

section \<open>Forwarded headers\<close>

text \<open>
  Claim C9, as amended. The headers sent on the raw path are a dict built from the inbound
  items whose lower-cased name is not \<open>host\<close>, \<open>content-length\<close> or \<open>connection\<close>: each such
  name is forwarded once, with the value of its last inbound occurrence, so that when no
  name is repeated the forwarded headers are exactly the remaining inbound items, in order
  and unchanged. When the request is not public the inbound \<open>authorization\<close> items are left
  out as well and the entry \<open>Authorization: Bearer <key>\<close> with the acquired key is added;
  when it is public nothing is substituted. These are the headers of the first upstream
  call.
\<close>

theorem forwarded_headers:
  "map_of (public_headers request) k =
     (if py_lower k \<in> set [''host'', ''content-length'', ''connection''] then None
      else map_of (rev (req_headers request)) k) \<and>
   map_of (keyed_headers request key) k =
     (if k = ''Authorization'' then Some (''Bearer '' @ key_text key)
      else if py_lower k \<in> set [''host'', ''content-length'', ''connection'', ''authorization'']
      then None
      else map_of (rev (req_headers request)) k) \<and>
   distinct (map fst (public_headers request)) \<and>
   distinct (map fst (keyed_headers request key)) \<and>
   (distinct (map fst (req_headers request)) \<longrightarrow>
      public_headers request =
        filter (\<lambda>(k, v). py_lower k \<notin> set [''host'', ''content-length'', ''connection''])
               (req_headers request) \<and>
      keyed_headers request key =
        filter (\<lambda>(k, v). py_lower k \<notin>
                  set [''host'', ''content-length'', ''connection'', ''authorization''])
               (req_headers request) @ [(''Authorization'', ''Bearer '' @ key_text key)]) \<and>
   (\<exists>c rest. http_calls (added w (snd (proxy_with_httpx S C request path True is_binary
                  is_stream w))) = c # rest \<and> call_headers c = public_headers request) \<and>
   (fst (get_next_key S (pool w)) = Inr key \<longrightarrow>
      (\<exists>c rest. http_calls (added w (snd (proxy_with_httpx S C request path False is_binary
                     is_stream w))) = c # rest \<and> call_headers c = keyed_headers request key))"
proof -
  have low: "py_lower ''Authorization'' = ''authorization''"
    by code_simp
  have a: "map_of (public_headers request) k =
     (if py_lower k \<in> set [''host'', ''content-length'', ''connection''] then None
      else map_of (rev (req_headers request)) k)"
    unfolding public_headers_def map_of_dict_of_items
    using map_of_rev_filter
      [of "\<lambda>k. py_lower k \<notin> set [''host'', ''content-length'', ''connection'']"
          "req_headers request" k]
    by auto
  have b: "map_of (keyed_headers request key) k =
     (if k = ''Authorization'' then Some (''Bearer '' @ key_text key)
      else if py_lower k \<in> set [''host'', ''content-length'', ''connection'', ''authorization'']
      then None
      else map_of (rev (req_headers request)) k)"
    unfolding keyed_headers_def map_of_dict_set map_of_dict_of_items
    using map_of_rev_filter
      [of "\<lambda>k. py_lower k \<notin> set [''host'', ''content-length'', ''connection'', ''authorization'']"
          "req_headers request" k]
    by auto
  have c: "distinct (map fst (public_headers request))"
    by (simp add: public_headers_def distinct_dict_of_items)
  have d: "distinct (map fst (keyed_headers request key))"
    by (simp add: keyed_headers_def distinct_dict_set distinct_dict_of_items)
  have e: "public_headers request =
        filter (\<lambda>(k, v). py_lower k \<notin> set [''host'', ''content-length'', ''connection''])
               (req_headers request)"
    if "distinct (map fst (req_headers request))"
    unfolding public_headers_def
    by (rule dict_of_items_distinct) (simp add: distinct_map_filter that)
  have f: "keyed_headers request key =
        filter (\<lambda>(k, v). py_lower k \<notin>
                  set [''host'', ''content-length'', ''connection'', ''authorization''])
               (req_headers request) @ [(''Authorization'', ''Bearer '' @ key_text key)]"
    if dist: "distinct (map fst (req_headers request))"
  proof -
    let ?kept = "filter (\<lambda>(k, v). py_lower k \<notin>
                  set [''host'', ''content-length'', ''connection'', ''authorization''])
               (req_headers request)"
    have "dict_of_items ?kept = ?kept"
      by (rule dict_of_items_distinct) (simp add: distinct_map_filter dist)
    moreover have "''Authorization'' \<notin> fst ` set ?kept"
      using low by auto
    ultimately show ?thesis
      unfolding keyed_headers_def by (simp add: dict_set_fresh)
  qed
  note g = raw_first_call_public [of w S C request path is_binary is_stream]
  note h = raw_first_call_keyed [of S w key C request path is_binary is_stream]
  from a b c d e f g h show ?thesis
    by blast
qed
theorem forwarded_headers_witness:
  "distinct (map fst (req_headers (ex_request ''GET'' []))) \<and>
   public_headers (ex_request ''GET'' [])
     = [(''authorization'', ''Bearer local-key''), (''accept'', ''*/*'')] \<and>
   keyed_headers (ex_request ''GET'' []) (Some ''A'')
     = [(''accept'', ''*/*''), (''Authorization'', ''Bearer A'')] \<and>
   fst (get_next_key (ex_services (chat_limited 0) (http_limited 0))
          (pool (ex_world [''A''] (Inr None)))) = Inr (Some ''A'') \<and>
   (\<exists>c rest. http_calls (added (ex_world [''A''] (Inr None))
        (snd (proxy_with_httpx (ex_services (chat_limited 0) (http_limited 0)) ex_config
                (ex_request ''GET'' []) ''/auth/key'' False False False
                (ex_world [''A''] (Inr None))))) = c # rest \<and>
      call_headers c = [(''accept'', ''*/*''), (''Authorization'', ''Bearer A'')])"
proof -
  have d: "distinct (map fst (req_headers (ex_request ''GET'' [])))"
    by code_simp
  have g: "fst (get_next_key (ex_services (chat_limited 0) (http_limited 0))
          (pool (ex_world [''A''] (Inr None)))) = Inr (Some ''A'')"
    by code_simp
  have p: "filter (\<lambda>(k, v). py_lower k \<notin> set [''host'', ''content-length'', ''connection''])
             (req_headers (ex_request ''GET'' []))
           = [(''authorization'', ''Bearer local-key''), (''accept'', ''*/*'')]"
    by code_simp
  have q: "filter (\<lambda>(k, v). py_lower k \<notin>
                    set [''host'', ''content-length'', ''connection'', ''authorization''])
             (req_headers (ex_request ''GET'' [])) = [(''accept'', ''*/*'')]"
    by code_simp
  note inst = forwarded_headers [where request = "ex_request ''GET'' []" and key = "Some ''A''"
      and S = "ex_services (chat_limited 0) (http_limited 0)" and C = ex_config
      and w = "ex_world [''A''] (Inr None)" and path = "''/auth/key''"
      and is_binary = False and is_stream = False and k = "''accept''"]
  note tail = inst [THEN conjunct2, THEN conjunct2, THEN conjunct2, THEN conjunct2]
  from tail d p q have hs:
    "public_headers (ex_request ''GET'' [])
       = [(''authorization'', ''Bearer local-key''), (''accept'', ''*/*'')]"
    "keyed_headers (ex_request ''GET'' []) (Some ''A'')
       = [(''accept'', ''*/*''), (''Authorization'', ''Bearer A'')]"
    by simp_all
  from tail g have "\<exists>c rest. http_calls (added (ex_world [''A''] (Inr None))
        (snd (proxy_with_httpx (ex_services (chat_limited 0) (http_limited 0)) ex_config
                (ex_request ''GET'' []) ''/auth/key'' False False False
                (ex_world [''A''] (Inr None))))) = c # rest \<and>
      call_headers c = keyed_headers (ex_request ''GET'' []) (Some ''A'')"
    by blast
  with hs d g show ?thesis
    by simp
qed

text \<open>
  The claim as stated fails when a header name is repeated: of two inbound \<open>accept\<close> headers
  only the second is forwarded, though neither is among the excluded names.
\<close>

theorem repeated_header_counterexample:
  "(''accept'', ''text/html'') \<in> set (req_headers repeated_header_request) \<and>
   py_lower ''accept'' \<notin> set [''host'', ''content-length'', ''connection''] \<and>
   map call_headers
     (http_calls (trace (snd (proxy_with_httpx (ex_services (chat_limited 0) (http_limited 0))
        ex_config repeated_header_request ''/models'' True False False
        (ex_world [''A''] (Inr None))))))
   = [[(''accept'', ''application/json'')]]"
  by code_simp

section \<open>Streaming\<close>

text \<open>
  Claim C2, as amended. When the streaming call of the OpenAI client returns a stream, the
  caller is sent one frame \<open>data: <json>\<close> followed by a blank line for every chunk delivered
  that has a non-empty choices list, and after them the frame \<open>data: [DONE]\<close> exactly when
  the stream ended normally; when the stream fails, the frames end with the last chunk
  delivered. In both cases a response is returned (no exception leaves the handler), the
  upstream is called once, and no key is acquired; after a failure whose text contains
  \<open>rate limit\<close> the key in use is disabled with no reset time.
\<close>

theorem stream_frames:
  "chat_create S (trace w) (build_chat_call request body api_key True) = Inr res \<longrightarrow>
     (\<exists>w'. handle_chat_completions (Suc n) S C request (Some body) api_key True w =
              Some (Inr \<lparr>content =
                           Streamed (map (chunk_frame C)
                                         (filter (\<lambda>ch. chunk_choices ch \<noteq> []) (stream_chunks res))
                                     @ (if stream_error res = None then [done_frame] else [])),
                         status_code = 200, resp_headers = sse_headers,
                         media_type = Some ''text/event-stream''\<rparr>, w') \<and>
            chat_calls (added w w') = [build_chat_call request body api_key True] \<and>
            acquisitions (added w w') = [] \<and>
            http_calls (added w w') = [] \<and>
            disablings (added w w') =
              (case stream_error res of
                 None \<Rightarrow> []
               | Some e \<Rightarrow> if rate_limit_text e \<and> api_key \<noteq> [] then [(api_key, None)] else []))"
  by (auto simp: chat_attempt_def do_chat_def stream_response_def disable_def Let_def added_def
           split: option.splits)

theorem stream_frames_witness:
  "chat_create (ex_services (chat_streams dropped_stream) (http_limited 0)) []
      (build_chat_call (ex_request ''POST'' chat_stream_body) [(''model'', JStr ''m'')] ''A'' True)
     = Inr dropped_stream \<and>
   frames_of (handle_chat_completions 1 (ex_services (chat_streams dropped_stream) (http_limited 0))
                ex_config (ex_request ''POST'' chat_stream_body) (Some [(''model'', JStr ''m'')])
                ''A'' True (ex_world [''A''] (Inr None)))
     = Some [''data: one'' @ nl @ nl, ''data: two'' @ nl @ nl, ''data: three'' @ nl @ nl]"
proof -
  let ?S = "ex_services (chat_streams dropped_stream) (http_limited 0)"
  let ?req = "ex_request ''POST'' chat_stream_body"
  let ?body = "[(''model'', JStr ''m'')]"
  let ?W = "ex_world [''A''] (Inr None)"
  have up: "chat_create ?S (trace ?W) (build_chat_call ?req ?body ''A'' True) = Inr dropped_stream"
    by (simp add: ex_services_def chat_streams_def)
  have tr: "trace ?W = []"
    by (simp add: ex_world_def)
  have fr: "map (chunk_frame ex_config)
              (filter (\<lambda>ch. chunk_choices ch \<noteq> []) (stream_chunks dropped_stream))
            @ (if stream_error dropped_stream = None then [done_frame] else [])
          = [''data: one'' @ nl @ nl, ''data: two'' @ nl @ nl, ''data: three'' @ nl @ nl]"
    by code_simp
  from stream_frames [where S = ?S and w = ?W and request = ?req and body = ?body
      and api_key = "''A''" and res = dropped_stream and n = 0 and C = ex_config] up
  obtain w' where "handle_chat_completions 1 ?S ex_config ?req (Some ?body) ''A'' True ?W =
              Some (Inr \<lparr>content =
                           Streamed (map (chunk_frame ex_config)
                                         (filter (\<lambda>ch. chunk_choices ch \<noteq> []) (stream_chunks dropped_stream))
                                     @ (if stream_error dropped_stream = None then [done_frame] else [])),
                         status_code = 200, resp_headers = sse_headers,
                         media_type = Some ''text/event-stream''\<rparr>, w')"
    by auto
  then have "frames_of (handle_chat_completions 1 ?S ex_config ?req (Some ?body) ''A'' True ?W)
     = Some [''data: one'' @ nl @ nl, ''data: two'' @ nl @ nl, ''data: three'' @ nl @ nl]"
    by (simp add: frames_of_def fr)
  with up tr show ?thesis
    by simp
qed

text \<open>
  The claim as stated fails when the stream fails: after three chunks and a dropped
  connection the caller is sent three frames and no end marker.
\<close>

theorem stream_marker_counterexample:
  "frames_of (proxy_endpoint 1 (ex_services (chat_streams dropped_stream) (http_limited 0))
                ex_config (ex_request ''POST'' chat_stream_body) ''/chat/completions''
                (Some ''Bearer local-key'') (ex_world [''A''] (Inr None)))
     = Some [''data: one'' @ nl @ nl, ''data: two'' @ nl @ nl, ''data: three'' @ nl @ nl] \<and>
   done_frame \<notin> set [''data: one'' @ nl @ nl, ''data: two'' @ nl @ nl, ''data: three'' @ nl @ nl]"
  by code_simp

section \<open>Failures of the structured call\<close>

text \<open>
  Claim C3, as amended. When the structured call fails before a response exists, the
  failure is treated as a rate limit exactly when the lower-cased text of the exception
  contains \<open>rate limit\<close> and a pool key is in use; the structured recognizer is not
  consulted. Then the key in use is disabled with no reset time, so with the default
  cooldown, a replacement is acquired after that, and with a usable replacement the same
  path runs again with it; an exception of the acquisition is raised as it is, and without
  a usable replacement, as in every other case, the failure is raised with status 500.
  Every disabling on this path passes no reset time.
\<close>

theorem structured_failure:
  "(chat_attempt S C request rb api_key is_stream w = (Inl e, w1) \<longrightarrow>
      surfaced_status (Inl (chat_error e)) = Some 500 \<and>
      (if rate_limit_text e \<and> api_key \<noteq> []
       then (\<exists>r0 p. get_next_key S (disable_key S api_key None (pool w1)) = (r0, p) \<and>
               handle_chat_completions (Suc n) S C request rb api_key is_stream w =
                 (case r0 of
                    Inl x \<Rightarrow>
                      Some (Inl x, w1\<lparr>pool := p,
                                      trace := trace w1 @ [Disable api_key None, Acquire r0]\<rparr>)
                  | Inr None \<Rightarrow>
                      Some (Inl (chat_error e),
                            w1\<lparr>pool := p, trace := trace w1 @ [Disable api_key None, Acquire r0]\<rparr>)
                  | Inr (Some k) \<Rightarrow>
                      if k \<noteq> []
                      then handle_chat_completions n S C request rb k is_stream
                             (w1\<lparr>pool := p,
                                 trace := trace w1 @ [Disable api_key None, Acquire r0]\<rparr>)
                      else Some (Inl (chat_error e),
                                 w1\<lparr>pool := p,
                                     trace := trace w1 @ [Disable api_key None, Acquire r0]\<rparr>)))
       else handle_chat_completions (Suc n) S C request rb api_key is_stream w =
              Some (Inl (chat_error e), w1))) \<and>
   (handle_chat_completions fuel S C request rb api_key is_stream v = Some (r, v') \<longrightarrow>
      list_all (\<lambda>(k, t). t = None) (disablings (added v v')))"
proof -
  have step: "surfaced_status (Inl (chat_error e)) = Some 500 \<and>
      (if rate_limit_text e \<and> api_key \<noteq> []
       then (\<exists>r0 p. get_next_key S (disable_key S api_key None (pool w1)) = (r0, p) \<and>
               handle_chat_completions (Suc n) S C request rb api_key is_stream w =
                 (case r0 of
                    Inl x \<Rightarrow>
                      Some (Inl x, w1\<lparr>pool := p,
                                      trace := trace w1 @ [Disable api_key None, Acquire r0]\<rparr>)
                  | Inr None \<Rightarrow>
                      Some (Inl (chat_error e),
                            w1\<lparr>pool := p, trace := trace w1 @ [Disable api_key None, Acquire r0]\<rparr>)
                  | Inr (Some k) \<Rightarrow>
                      if k \<noteq> []
                      then handle_chat_completions n S C request rb k is_stream
                             (w1\<lparr>pool := p,
                                 trace := trace w1 @ [Disable api_key None, Acquire r0]\<rparr>)
                      else Some (Inl (chat_error e),
                                 w1\<lparr>pool := p,
                                     trace := trace w1 @ [Disable api_key None, Acquire r0]\<rparr>)))
       else handle_chat_completions (Suc n) S C request rb api_key is_stream w =
              Some (Inl (chat_error e), w1))"
    if att: "chat_attempt S C request rb api_key is_stream w = (Inl e, w1)"
  proof -
    obtain r0 p where g: "get_next_key S (disable_key S api_key None (pool w1)) = (r0, p)"
      by force
    have acq: "acquire S (disable S api_key None w1) =
                 (r0, w1\<lparr>pool := p, trace := trace w1 @ [Disable api_key None, Acquire r0]\<rparr>)"
      by (simp add: acquire_def disable_def g)
    show ?thesis
      using att g acq
      by (auto simp: chat_error_def split: sum.splits option.splits)
  qed
  have all_none: "list_all (\<lambda>(k, t). t = None) (disablings (added v v'))"
    if "handle_chat_completions fuel S C request rb api_key is_stream v = Some (r, v')"
    using handle_record [OF that] by auto
  from step all_none show ?thesis
    by blast
qed

text \<open>
  The claim as stated fails twice. An error with the rate-limit code and a reset time in
  its metadata, which the structured recognizer detects, is raised as status 500 with no
  key disabled when its message does not contain \<open>rate limit\<close>; and when the message does
  contain it, the key is disabled without the reset time that the recognizer parses.
\<close>

theorem structured_failure_counterexample:
  "check_rate_limit_openai ex_config provider_api_error = (True, Some 1700000000000) \<and>
   run_summary
     (proxy_endpoint 2 (ex_services (chat_fails (APIError provider_api_error)) (http_limited 0))
        ex_config (ex_request ''POST'' chat_body) ''/chat/completions'' (Some ''Bearer local-key'')
        (ex_world [''A'', ''B''] (Inr None)))
     = Some (Some 500, 1, 0, []) \<and>
   check_rate_limit_openai ex_config rate_limit_api_error = (True, Some 1700000000000) \<and>
   run_summary
     (proxy_endpoint 2 (ex_services (chat_limited 1) (http_limited 0))
        ex_config (ex_request ''POST'' chat_body) ''/chat/completions'' (Some ''Bearer local-key'')
        (ex_world [''A'', ''B''] (Inr None)))
     = Some (Some 200, 2, 0, [(''A'', None)])"
  by code_simp


theorem structured_failure_witness:
  "chat_attempt (ex_services (chat_limited 1) (http_limited 0)) ex_config
      (ex_request ''POST'' chat_body) (Some [(''model'', JStr ''m'')]) ''A'' False
      (ex_world [''A'', ''B''] (Inr None))
     = (Inl (APIError rate_limit_api_error),
        (ex_world [''A'', ''B''] (Inr None))
          \<lparr>trace := [ChatCall (build_chat_call (ex_request ''POST'' chat_body)
                                  [(''model'', JStr ''m'')] ''A'' False)]\<rparr>) \<and>
   rate_limit_text (APIError rate_limit_api_error) \<and>
   handle_chat_completions 2 (ex_services (chat_limited 1) (http_limited 0)) ex_config
      (ex_request ''POST'' chat_body) (Some [(''model'', JStr ''m'')]) ''A'' False
      (ex_world [''A'', ''B''] (Inr None))
     = handle_chat_completions 1 (ex_services (chat_limited 1) (http_limited 0)) ex_config
         (ex_request ''POST'' chat_body) (Some [(''model'', JStr ''m'')]) ''B'' False
         ((ex_world [''A'', ''B''] (Inr None))
            \<lparr>pool := snd (pool_acquire (pool_disable ''A'' None
                                          (pool (ex_world [''A'', ''B''] (Inr None))))),
             trace := [ChatCall (build_chat_call (ex_request ''POST'' chat_body)
                                   [(''model'', JStr ''m'')] ''A'' False),
                       Disable ''A'' None, Acquire (Inr (Some ''B''))]\<rparr>) \<and>
   list_all (\<lambda>(k, t). t = None)
     (disablings (added (ex_world [''A'', ''B''] (Inr None))
        (snd (the (handle_chat_completions 2 (ex_services (chat_limited 1) (http_limited 0))
                     ex_config (ex_request ''POST'' chat_body) (Some [(''model'', JStr ''m'')])
                     ''A'' False (ex_world [''A'', ''B''] (Inr None)))))))"
proof -
  let ?S = "ex_services (chat_limited 1) (http_limited 0)"
  let ?req = "ex_request ''POST'' chat_body"
  let ?rb = "Some [(''model'', JStr ''m'')]"
  let ?W = "ex_world [''A'', ''B''] (Inr None)"
  let ?call = "build_chat_call ?req [(''model'', JStr ''m'')] ''A'' False"
  let ?W1 = "?W\<lparr>trace := [ChatCall ?call]\<rparr>"
  let ?e = "APIError rate_limit_api_error"
  have att: "chat_attempt ?S ex_config ?req ?rb ''A'' False ?W = (Inl ?e, ?W1)"
    by code_simp
  have rl: "rate_limit_text ?e"
    by code_simp
  have key: "fst (pool_acquire (pool_disable ''A'' None (pool ?W))) = Inr (Some ''B'')"
    by code_simp
  have run: "handle_chat_completions 2 ?S ex_config ?req ?rb ''A'' False ?W \<noteq> None"
    by code_simp
  then obtain r v' where hc: "handle_chat_completions 2 ?S ex_config ?req ?rb ''A'' False ?W = Some (r, v')"
    by auto
  note inst = structured_failure [where S = ?S and C = ex_config and request = ?req and rb = ?rb
      and api_key = "''A''" and is_stream = False and w = ?W and e = ?e and ?w1.0 = ?W1
      and n = 1 and fuel = 2 and v = ?W and r = r and v' = v']
  from inst [THEN conjunct1] att rl
  obtain r0 p where g: "get_next_key ?S (disable_key ?S ''A'' None (pool ?W1)) = (r0, p)"
    and h: "handle_chat_completions (Suc 1) ?S ex_config ?req ?rb ''A'' False ?W =
                 (case r0 of
                    Inl x \<Rightarrow>
                      Some (Inl x, ?W1\<lparr>pool := p,
                                      trace := trace ?W1 @ [Disable ''A'' None, Acquire r0]\<rparr>)
                  | Inr None \<Rightarrow>
                      Some (Inl (chat_error ?e),
                            ?W1\<lparr>pool := p, trace := trace ?W1 @ [Disable ''A'' None, Acquire r0]\<rparr>)
                  | Inr (Some k) \<Rightarrow>
                      if k \<noteq> []
                      then handle_chat_completions 1 ?S ex_config ?req ?rb k False
                             (?W1\<lparr>pool := p,
                                 trace := trace ?W1 @ [Disable ''A'' None, Acquire r0]\<rparr>)
                      else Some (Inl (chat_error ?e),
                                 ?W1\<lparr>pool := p,
                                     trace := trace ?W1 @ [Disable ''A'' None, Acquire r0]\<rparr>))"
    by auto
  from g key have r0: "r0 = Inr (Some ''B'')"
    and p: "p = snd (pool_acquire (pool_disable ''A'' None (pool ?W)))"
    by (auto simp: ex_services_def)
  from h r0 p have step: "handle_chat_completions 2 ?S ex_config ?req ?rb ''A'' False ?W
     = handle_chat_completions 1 ?S ex_config ?req ?rb ''B'' False
         (?W\<lparr>pool := snd (pool_acquire (pool_disable ''A'' None (pool ?W))),
             trace := [ChatCall ?call, Disable ''A'' None, Acquire (Inr (Some ''B''))]\<rparr>)"
    by (simp add: numeral_2_eq_2)
  from inst [THEN conjunct2] hc
  have "list_all (\<lambda>(k, t). t = None)
     (disablings (added ?W (snd (the (handle_chat_completions 2 ?S ex_config ?req ?rb ''A'' False ?W)))))"
    by simp
  with att rl step show ?thesis
    by blast
qed

section \<open>Dispatch\<close>

lemma endpoint_key_record:
  assumes "endpoint_key S is_public w = (x, w1)"
  shows "\<exists>new. trace w1 = trace w @ new \<and> http_calls new = [] \<and> chat_calls new = [] \<and>
           disablings new = [] \<and> (is_public \<longrightarrow> w1 = w \<and> x = Inr [])"
proof (cases is_public)
  case True
  with assms show ?thesis
    by (simp add: endpoint_key_def)
next
  case False
  obtain r p where g: "get_next_key S (pool w) = (r, p)"
    by force
  with assms False have "w1 = w\<lparr>pool := p, trace := trace w @ [Acquire r]\<rparr>"
    by (auto simp: endpoint_key_def acquire_def split: sum.splits option.splits if_splits)
  with False show ?thesis
    by (intro exI [of _ "[Acquire r]"]) simp
qed

lemma raw_no_chat_calls:
  "chat_calls (added w (snd (proxy_with_httpx S C request path is_public is_binary is_stream w))) = []"
proof -
  obtain r w' where run: "proxy_with_httpx S C request path is_public is_binary is_stream w = (r, w')"
    by force
  obtain x w1 where prep: "prepare_call S C request path is_public w = (x, w1)"
    by force
  from prepare_call_record [OF prep]
  obtain new1 where n1: "trace w1 = trace w @ new1" "chat_calls new1 = []"
    by auto
  from run have "chat_calls (added w w') = []"
  proof (cases rule: raw_record)
    case (refused e w1')
    with prep n1 show ?thesis
      by simp
  next
    case (once call w1')
    with prep n1 have "trace w' = trace w @ (new1 @ [HttpCall call])"
      by simp
    with n1 show ?thesis
      by simp
  next
    case (exhausted call w1' k t r0 p e)
    with prep n1 have "trace w' = trace w @ (new1 @ [HttpCall call, Disable k t, Acquire r0])"
      by simp
    with n1 show ?thesis
      by simp
  next
    case (retried call w1' k t s p)
    with prep n1 have "trace w' = trace w @ (new1 @ [HttpCall call, Disable k t, Acquire (Inr (Some s)),
        HttpCall (call\<lparr>call_headers := dict_set ''Authorization'' (''Bearer '' @ s) (call_headers call)\<rparr>)])"
      by simp
    with n1 show ?thesis
      by simp
  qed
  with run show ?thesis
    by simp
qed

lemma structured_dispatch:
  assumes route: "structured_route C path"
    and auth: "is_public_path C path \<or> verify_access_key authorization (access_key C) = Inr True"
  shows "proxy_endpoint fuel S C request path authorization w =
     (case endpoint_key S (is_public_path C path) w of
        (Inl e, w1) \<Rightarrow> Some (Inl (proxy_error e), w1)
      | (Inr api_key, w1) \<Rightarrow>
          (case handle_chat_completions fuel S C request (fst (parse_body C request path))
                  api_key (snd (parse_body C request path)) w1 of
             None \<Rightarrow> None
           | Some (Inl e, w2) \<Rightarrow> Some (Inl (proxy_error e), w2)
           | Some (Inr resp, w2) \<Rightarrow> Some (Inr resp, w2)))"
  using route auth
  by (auto simp: proxy_endpoint_def structured_route_def Let_def split: prod.splits sum.splits)

lemma structured_no_http_calls:
  assumes route: "structured_route C path"
    and auth: "is_public_path C path \<or> verify_access_key authorization (access_key C) = Inr True"
    and run: "proxy_endpoint fuel S C request path authorization w = Some (r, w')"
  shows "http_calls (added w w') = []"
proof -
  obtain x w1 where ek: "endpoint_key S (is_public_path C path) w = (x, w1)"
    by force
  from endpoint_key_record [OF ek]
  obtain new1 where n1: "trace w1 = trace w @ new1" "http_calls new1 = []"
    by auto
  show ?thesis
  proof (cases x)
    case (Inl e)
    with run ek structured_dispatch [OF route auth, of fuel S request w] have "w' = w1"
      by simp
    with n1 show ?thesis
      by simp
  next
    case (Inr api_key)
    with run ek structured_dispatch [OF route auth, of fuel S request w]
    obtain r2 where "handle_chat_completions fuel S C request (fst (parse_body C request path))
                  api_key (snd (parse_body C request path)) w1 = Some (r2, w')"
      by (auto split: option.splits sum.splits prod.splits)
    from handle_record [OF this]
    obtain new2 where "trace w' = trace w1 @ new2" "http_calls new2 = []"
      by auto
    with n1 have "trace w' = trace w @ (new1 @ new2)" "http_calls (new1 @ new2) = []"
      by simp_all
    then show ?thesis
      by (simp del: http_calls_append)
  qed
qed

lemma structured_returns:
  assumes route: "structured_route C path"
    and auth: "is_public_path C path \<or> verify_access_key authorization (access_key C) = Inr True"
    and quiet: "\<forall>hist call e. m \<le> length (chat_calls hist) \<longrightarrow>
                  chat_create S hist call = Inl e \<longrightarrow> \<not> rate_limit_text e"
    and fuel: "m < fuel"
  shows "proxy_endpoint fuel S C request path authorization w \<noteq> None"
proof -
  obtain x w1 where ek: "endpoint_key S (is_public_path C path) w = (x, w1)"
    by force
  show ?thesis
  proof (cases x)
    case (Inl e)
    with ek structured_dispatch [OF route auth, of fuel S request w] show ?thesis
      by simp
  next
    case (Inr api_key)
    from fuel have "0 < fuel" "m < length (chat_calls (trace w1)) + fuel"
      by simp_all
    from handle_returns [OF quiet this]
    have "handle_chat_completions fuel S C request (fst (parse_body C request path))
                  api_key (snd (parse_body C request path)) w1 \<noteq> None" .
    with Inr ek structured_dispatch [OF route auth, of fuel S request w] show ?thesis
      by (auto split: option.splits sum.splits prod.splits)
  qed
qed

text \<open>
  Claim C4 says that a request to a chat-completion path whose body fails to parse is
  handled by the raw path, with the flags at their defaults and without the parse error
  reaching the caller. The block of lines 69 to 91 does catch the parse error and goes on
  with the parsed body unset, but the test of line 94 reads only the path, so the request
  is handed to \<open>handle_chat_completions\<close>, whose parameter is declared a dict and whose first
  statement on it, \<open>request_body.copy()\<close>, raises on \<open>None\<close>. The runs below: a POST whose
  body is not JSON, and a GET without a body. Each leaves the parsed body unset and the
  streaming flag false, makes no upstream call of either kind and is answered with status
  500, where the raw path would have called the upstream once and relayed its answer.
\<close>

theorem unparsed_body_not_raw:
  "parse_body ex_config (ex_request ''POST'' ''not json'') ''/chat/completions'' = (None, False) \<and>
   run_summary
     (proxy_endpoint 1 (ex_services (chat_limited 0) (http_limited 0)) ex_config
        (ex_request ''POST'' ''not json'') ''/chat/completions'' (Some ''Bearer local-key'')
        (ex_world [''A''] (Inr None)))
     = Some (Some 500, 0, 0, []) \<and>
   run_summary
     (Some (proxy_with_httpx (ex_services (chat_limited 0) (http_limited 0)) ex_config
        (ex_request ''POST'' ''not json'') ''/chat/completions'' False False False
        (ex_world [''A''] (Inr None))))
     = Some (Some 200, 0, 1, []) \<and>
   parse_body ex_config (ex_request ''GET'' []) ''/chat/completions'' = (None, False) \<and>
   run_summary
     (proxy_endpoint 1 (ex_services (chat_limited 0) (http_limited 0)) ex_config
        (ex_request ''GET'' []) ''/chat/completions'' (Some ''Bearer local-key'')
        (ex_world [''A''] (Inr None)))
     = Some (Some 500, 0, 0, []) \<and>
   run_summary
     (Some (proxy_with_httpx (ex_services (chat_limited 0) (http_limited 0)) ex_config
        (ex_request ''GET'' []) ''/chat/completions'' False False False
        (ex_world [''A''] (Inr None))))
     = Some (Some 200, 0, 1, [])"
  by code_simp

text \<open>
  In general: on the structured route a request whose parsed body is unset is answered
  with status 500 and calls no upstream.
\<close>

lemma handle_unset_body:
  "handle_chat_completions (Suc n) S C request None api_key is_stream w =
     Some (Inl (chat_error none_copy_error), w)"
  using none_copy_not_rate_limit by (simp add: chat_attempt_def)

lemma unparsed_body_500:
  assumes route: "structured_route C path"
    and auth: "is_public_path C path \<or> verify_access_key authorization (access_key C) = Inr True"
    and unset: "fst (parse_body C request path) = None"
    and fuel: "0 < fuel"
  shows "\<exists>x w'. proxy_endpoint fuel S C request path authorization w =
                  Some (Inl (proxy_error x), w') \<and>
               chat_calls (added w w') = [] \<and> http_calls (added w w') = []"
proof -
  from fuel obtain n where n: "fuel = Suc n"
    by (cases fuel) auto
  obtain x w1 where ek: "endpoint_key S (is_public_path C path) w = (x, w1)"
    by force
  from endpoint_key_record [OF ek]
  obtain new1 where n1: "trace w1 = trace w @ new1" "http_calls new1 = []" "chat_calls new1 = []"
    by auto
  note disp = structured_dispatch [OF route auth, of fuel S request w]
  show ?thesis
  proof (cases x)
    case (Inl e)
    with disp ek have "proxy_endpoint fuel S C request path authorization w =
                         Some (Inl (proxy_error e), w1)"
      by simp
    with n1 show ?thesis
      by (intro exI [of _ e] exI [of _ w1]) simp
  next
    case (Inr api_key)
    with disp ek unset n handle_unset_body [of n S C request api_key "snd (parse_body C request path)" w1]
    have "proxy_endpoint fuel S C request path authorization w =
            Some (Inl (proxy_error (chat_error none_copy_error)), w1)"
      by simp
    with n1 show ?thesis
      by (intro exI [of _ "chat_error none_copy_error"] exI [of _ w1]) simp
  qed
qed

section \<open>Public paths\<close>

lemma current_key_public:
  assumes "''Authorization'' \<notin> fst ` set (req_headers request)"
  shows "current_key_of (public_headers request) = None"
proof -
  have "''Authorization'' \<notin> fst ` set (rev (filter
           (\<lambda>(k, v). py_lower k \<notin> set [''host'', ''content-length'', ''connection''])
           (req_headers request)))"
    using assms by auto
  then have "map_of (public_headers request) ''Authorization'' = None"
    unfolding public_headers_def map_of_dict_of_items map_of_eq_None_iff .
  then show ?thesis
    by (simp add: current_key_of_def)
qed

lemma public_raw_untouched:
  assumes hdr: "''Authorization'' \<notin> fst ` set (req_headers request)"
    and run: "proxy_with_httpx S C request path True is_binary is_stream w = (r, w')"
  shows "pool w' = pool w \<and> acquisitions (added w w') = [] \<and> disablings (added w w') = []"
proof -
  note prep = prepare_call_public [of S C request path w]
  note none = current_key_public [OF hdr]
  from run show ?thesis
  proof (cases rule: raw_record)
    case (refused e w1)
    with prep show ?thesis
      by simp
  next
    case (once call w1)
    with prep have "w' = w\<lparr>trace := trace w @ [HttpCall call]\<rparr>"
      by simp
    then show ?thesis
      by simp
  next
    case (exhausted call w1 k t r0 p e)
    with prep none show ?thesis
      by auto
  next
    case (retried call w1 k t s p)
    with prep none show ?thesis
      by auto
  qed
qed

lemma handle_keyless_returns:
  "handle_chat_completions (Suc n) S C request rb [] is_stream w \<noteq> None"
  by (auto split: prod.splits sum.splits)

text \<open>
  Claim C8. A request to a public path is answered without the authentication check (the
  outcome is the same with any Authorization header and with none) and without acquiring
  or disabling a key: the key pool is left as it was, on the structured and on the raw
  path. The raw path reads the key in use back from a header spelled \<open>Authorization\<close>;
  the server hands header names over in lower case, so a public request carries none.
\<close>

theorem public_untouched:
  "is_public_path C path \<and> ''Authorization'' \<notin> fst ` set (req_headers request) \<and> 0 < fuel \<longrightarrow>
     (\<exists>r w'. proxy_endpoint fuel S C request path authorization w = Some (r, w') \<and>
        pool w' = pool w \<and> acquisitions (added w w') = [] \<and> disablings (added w w') = [] \<and>
        proxy_endpoint fuel S C request path None w = Some (r, w'))"
proof (intro impI)
  assume a: "is_public_path C path \<and> ''Authorization'' \<notin> fst ` set (req_headers request) \<and> 0 < fuel"
  then have pub: "is_public_path C path"
    and hdr: "''Authorization'' \<notin> fst ` set (req_headers request)"
    by simp_all
  from a obtain n where fuel: "fuel = Suc n"
    by (cases fuel) auto
  have same: "proxy_endpoint fuel S C request path None w =
              proxy_endpoint fuel S C request path authorization w"
    using pub by (simp add: proxy_endpoint_def)
  show "\<exists>r w'. proxy_endpoint fuel S C request path authorization w = Some (r, w') \<and>
        pool w' = pool w \<and> acquisitions (added w w') = [] \<and> disablings (added w w') = [] \<and>
        proxy_endpoint fuel S C request path None w = Some (r, w')"
  proof (cases "structured_route C path")
    case False
    then have raw: "proxy_endpoint fuel S C request path authorization w =
        Some (proxy_with_httpx S C request path True (is_binary_path C path)
                (snd (parse_body C request path)) w)"
      using pub
      by (auto simp: proxy_endpoint_def structured_route_def Let_def split: prod.splits)
    obtain r w' where run: "proxy_with_httpx S C request path True (is_binary_path C path)
                (snd (parse_body C request path)) w = (r, w')"
      by force
    from public_raw_untouched [OF hdr run] raw run same show ?thesis
      by simp
  next
    case True
    have ek: "endpoint_key S (is_public_path C path) w = (Inr [], w)"
      using pub by (simp add: endpoint_key_def)
    have "handle_chat_completions fuel S C request (fst (parse_body C request path)) []
            (snd (parse_body C request path)) w \<noteq> None"
      unfolding fuel by (rule handle_keyless_returns)
    then obtain r2 w' where hc: "handle_chat_completions fuel S C request
            (fst (parse_body C request path)) [] (snd (parse_body C request path)) w = Some (r2, w')"
      by auto
    from handle_record [OF hc]
    have rec: "pool w' = pool w \<and> acquisitions (added w w') = [] \<and> disablings (added w w') = []"
      by auto
    from structured_dispatch [OF True, of authorization fuel S request w] pub ek hc
    obtain r where "proxy_endpoint fuel S C request path authorization w = Some (r, w')"
      by (cases r2) auto
    with rec same show ?thesis
      by simp
  qed
qed

theorem public_untouched_witness:
  "is_public_path ex_config ''/models'' \<and>
   ''Authorization'' \<notin> fst ` set (req_headers (ex_request ''GET'' [])) \<and>
   run_summary (proxy_endpoint 1 (ex_services (chat_limited 0) (http_limited 1)) ex_config
       (ex_request ''GET'' []) ''/models'' None (ex_world [''A'', ''B''] (Inr None)))
     = Some (Some 429, 0, 1, []) \<and>
   pool (snd (the (proxy_endpoint 1 (ex_services (chat_limited 0) (http_limited 1)) ex_config
       (ex_request ''GET'' []) ''/models'' None (ex_world [''A'', ''B''] (Inr None)))))
     = pool (ex_world [''A'', ''B''] (Inr None)) \<and>
   acquisitions (added (ex_world [''A'', ''B''] (Inr None))
     (snd (the (proxy_endpoint 1 (ex_services (chat_limited 0) (http_limited 1)) ex_config
       (ex_request ''GET'' []) ''/models'' None (ex_world [''A'', ''B''] (Inr None)))))) = []"
proof -
  let ?S = "ex_services (chat_limited 0) (http_limited 1)"
  let ?req = "ex_request ''GET'' []"
  let ?W = "ex_world [''A'', ''B''] (Inr None)"
  have pub: "is_public_path ex_config ''/models''"
    by code_simp
  have hdr: "''Authorization'' \<notin> fst ` set (req_headers ?req)"
    by (simp add: ex_request_def)
  have sm: "run_summary (proxy_endpoint 1 ?S ex_config ?req ''/models'' None ?W)
              = Some (Some 429, 0, 1, [])"
    by code_simp
  from public_untouched [where C = ex_config and path = "''/models''" and request = ?req
      and fuel = 1 and S = ?S and authorization = None and w = ?W] pub hdr
  obtain r w' where "proxy_endpoint 1 ?S ex_config ?req ''/models'' None ?W = Some (r, w')"
    "pool w' = pool ?W" "acquisitions (added ?W w') = []"
    by auto
  with pub hdr sm show ?thesis
    by simp
qed

section \<open>Statuses of failures\<close>

text \<open>
  Claim C5 says that pool exhaustion at acquisition surfaces as 503, a connect failure as
  503, and a rate limit with no replacement key as 429. The handlers raise these statuses
  inside a \<open>try\<close> whose \<open>except Exception\<close> catches them and raises 500 instead. The runs
  below: a structured request with every key cooling (the pool returning nothing, or
  raising); a raw request whose upstream cannot be reached; a raw request that is rate
  limited with a single key in the pool (again both ways). Each surfaces as status 500.
\<close>

theorem taxonomy_not_kept:
  "run_summary
     (proxy_endpoint 1 (ex_services (chat_limited 0) (http_limited 0)) ex_config
        (ex_request ''POST'' chat_body) ''/chat/completions'' (Some ''Bearer local-key'')
        (cooling_world [''A''] (Inr None)))
     = Some (Some 500, 0, 0, []) \<and>
   run_summary
     (proxy_endpoint 1 (ex_services (chat_limited 0) (http_limited 0)) ex_config
        (ex_request ''POST'' chat_body) ''/chat/completions'' (Some ''Bearer local-key'')
        (cooling_world [''A''] (Inl (HTTPException 503 ''No available API keys''))))
     = Some (Some 500, 0, 0, []) \<and>
   run_summary
     (proxy_endpoint 1 (ex_services (chat_limited 0) http_unreachable) ex_config
        (ex_request ''GET'' []) ''/auth/key'' (Some ''Bearer local-key'')
        (ex_world [''A''] (Inr None)))
     = Some (Some 500, 0, 1, []) \<and>
   run_summary
     (proxy_endpoint 1 (ex_services (chat_limited 0) (http_limited 1)) ex_config
        (ex_request ''GET'' []) ''/auth/key'' (Some ''Bearer local-key'')
        (ex_world [''A''] (Inr None)))
     = Some (Some 500, 0, 1, [(''A'', Some 1700000000000)]) \<and>
   run_summary
     (proxy_endpoint 1 (ex_services (chat_limited 0) (http_limited 1)) ex_config
        (ex_request ''GET'' []) ''/auth/key'' (Some ''Bearer local-key'')
        (ex_world [''A''] (Inl (HTTPException 503 ''No available API keys''))))
     = Some (Some 500, 0, 1, [(''A'', Some 1700000000000)])"
  by code_simp

text \<open>
  In general: an exception of the raw path has status 500, 503 or 504, never 429, and an
  exception of the structured path, once authenticated, has status 500.
\<close>

lemma outer_handler_status:
  "\<exists>d. outer_handler x = HTTPException 500 d \<or> outer_handler x = HTTPException 503 d \<or>
       outer_handler x = HTTPException 504 d"
  by (cases x) auto

lemma answer_error:
  assumes "answer S C is_binary is_stream call resp w = (Inl e, w')"
  shows "\<exists>x. e = outer_handler x"
  using assms
  by (auto simp: answer_def split: if_splits prod.splits option.splits sum.splits)

lemma raw_error:
  assumes "proxy_with_httpx S C request path is_public is_binary is_stream w = (Inl e, w')"
  shows "\<exists>x. e = outer_handler x"
  using assms answer_error
  by (fastforce simp: proxy_with_httpx_def split: prod.splits sum.splits)

lemma raw_never_429:
  assumes "proxy_with_httpx S C request path is_public is_binary is_stream w = (Inl e, w')"
  shows "\<exists>d. e = HTTPException 500 d \<or> e = HTTPException 503 d \<or> e = HTTPException 504 d"
  using raw_error [OF assms] outer_handler_status by auto

lemma structured_errors_500:
  assumes route: "structured_route C path"
    and auth: "is_public_path C path \<or> verify_access_key authorization (access_key C) = Inr True"
    and run: "proxy_endpoint fuel S C request path authorization w = Some (Inl e, w')"
  shows "\<exists>x. e = proxy_error x"
  using run structured_dispatch [OF route auth, of fuel S request w]
  by (auto split: prod.splits sum.splits option.splits)

end
